theory Spec2Isabelle
  imports Main "HOL-Library.AList"
begin

section \<open>Strings as the engine uses them\<close>

text \<open>
  The engine is \<^verbatim>\<open>mcp-shell-cmd.js\<close>. The source holds two revisions of it (2.0.0 and
  2.1.0); \<^verbatim>\<open>validateCommand\<close>, \<^verbatim>\<open>pollJob\<close>, \<^verbatim>\<open>killJob\<close>,
  \<^verbatim>\<open>listJobs\<close>, \<^verbatim>\<open>cleanupJob\<close> and the reaper are the same text in both, and
  \<^verbatim>\<open>createJob\<close> of 2.1.0 takes the shell as a second argument and is the 2.0.0 function
  when the shell is \<^verbatim>\<open>cmd\<close>. The 2.1.0 text is the one embedded here.

  A command is a JavaScript string, a sequence of 16-bit code units, and the guard looks at
  its code units by class and by case: it is modelled as the list of its code units,
  \<open>js_string\<close>. The other strings of the engine (identifiers, buffers, messages, the shell
  name) are only compared, appended and split at line feeds; they are modelled as
  \<^typ>\<open>string\<close>.
\<close>

type_synonym code_unit = nat

type_synonym js_string = "code_unit list"

text \<open>The JavaScript string of a literal.\<close>

definition js :: "string \<Rightarrow> js_string" where
  "js s = map of_char s"

text \<open>
  The class \<^verbatim>\<open>\s\<close> of a regular expression, which is also what \<^verbatim>\<open>trim\<close> strips:
  TAB, LF, VT, FF, CR, SPACE, NBSP, U+1680, U+2000 to U+200A, U+2028, U+2029, U+202F, U+205F,
  U+3000 and U+FEFF.
\<close>

definition isSpace :: "code_unit \<Rightarrow> bool" where
  "isSpace c =
     (c \<in> set [0x09, 0x0A, 0x0B, 0x0C, 0x0D, 0x20, 0xA0, 0x1680, 0x2000, 0x2001, 0x2002, 0x2003,
        0x2004, 0x2005, 0x2006, 0x2007, 0x2008, 0x2009, 0x200A, 0x2028, 0x2029, 0x202F, 0x205F,
        0x3000, 0xFEFF])"

text \<open>
  The class \<^verbatim>\<open>\w\<close>: a letter of A..Z or a..z, a digit or the underscore. Without the flag
  \<^verbatim>\<open>u\<close> the flag \<^verbatim>\<open>i\<close> adds nothing to it.
\<close>

definition isWord :: "code_unit \<Rightarrow> bool" where
  "isWord c =
     ((97 \<le> c \<and> c \<le> 122) \<or> (65 \<le> c \<and> c \<le> 90) \<or> (48 \<le> c \<and> c \<le> 57) \<or> c = 95)"

text \<open>
  The lower-case mapping of the code units that have one (Unicode 14.0): an entry
  \<open>(lo, hi, step, t)\<close> sends \<open>lo\<close> to \<open>t\<close>, \<open>lo + step\<close> to \<open>t + step\<close> and so on up
  to \<open>hi\<close>. Among them is the Kelvin sign U+212A, which lower-cases to the letter k.
\<close>

definition lower_table :: "(code_unit \<times> code_unit \<times> nat \<times> code_unit) list" where
  "lower_table =
    [(0x0041, 0x005A, 1, 0x0061), (0x00C0, 0x00D6, 1, 0x00E0), (0x00D8, 0x00DE, 1, 0x00F8),
     (0x0100, 0x012E, 2, 0x0101), (0x0132, 0x0136, 2, 0x0133), (0x0139, 0x0147, 2, 0x013A),
     (0x014A, 0x0176, 2, 0x014B), (0x0178, 0x0178, 1, 0x00FF), (0x0179, 0x017D, 2, 0x017A),
     (0x0181, 0x0181, 1, 0x0253), (0x0182, 0x0184, 2, 0x0183), (0x0186, 0x0186, 1, 0x0254),
     (0x0187, 0x0187, 1, 0x0188), (0x0189, 0x018A, 1, 0x0256), (0x018B, 0x018B, 1, 0x018C),
     (0x018E, 0x018E, 1, 0x01DD), (0x018F, 0x018F, 1, 0x0259), (0x0190, 0x0190, 1, 0x025B),
     (0x0191, 0x0191, 1, 0x0192), (0x0193, 0x0193, 1, 0x0260), (0x0194, 0x0194, 1, 0x0263),
     (0x0196, 0x0196, 1, 0x0269), (0x0197, 0x0197, 1, 0x0268), (0x0198, 0x0198, 1, 0x0199),
     (0x019C, 0x019C, 1, 0x026F), (0x019D, 0x019D, 1, 0x0272), (0x019F, 0x019F, 1, 0x0275),
     (0x01A0, 0x01A4, 2, 0x01A1), (0x01A6, 0x01A6, 1, 0x0280), (0x01A7, 0x01A7, 1, 0x01A8),
     (0x01A9, 0x01A9, 1, 0x0283), (0x01AC, 0x01AC, 1, 0x01AD), (0x01AE, 0x01AE, 1, 0x0288),
     (0x01AF, 0x01AF, 1, 0x01B0), (0x01B1, 0x01B2, 1, 0x028A), (0x01B3, 0x01B5, 2, 0x01B4),
     (0x01B7, 0x01B7, 1, 0x0292), (0x01B8, 0x01B8, 1, 0x01B9), (0x01BC, 0x01BC, 1, 0x01BD),
     (0x01C4, 0x01C4, 1, 0x01C6), (0x01C5, 0x01C5, 1, 0x01C6), (0x01C7, 0x01C7, 1, 0x01C9),
     (0x01C8, 0x01C8, 1, 0x01C9), (0x01CA, 0x01CA, 1, 0x01CC), (0x01CB, 0x01DB, 2, 0x01CC),
     (0x01DE, 0x01EE, 2, 0x01DF), (0x01F1, 0x01F1, 1, 0x01F3), (0x01F2, 0x01F4, 2, 0x01F3),
     (0x01F6, 0x01F6, 1, 0x0195), (0x01F7, 0x01F7, 1, 0x01BF), (0x01F8, 0x021E, 2, 0x01F9),
     (0x0220, 0x0220, 1, 0x019E), (0x0222, 0x0232, 2, 0x0223), (0x023A, 0x023A, 1, 0x2C65),
     (0x023B, 0x023B, 1, 0x023C), (0x023D, 0x023D, 1, 0x019A), (0x023E, 0x023E, 1, 0x2C66),
     (0x0241, 0x0241, 1, 0x0242), (0x0243, 0x0243, 1, 0x0180), (0x0244, 0x0244, 1, 0x0289),
     (0x0245, 0x0245, 1, 0x028C), (0x0246, 0x024E, 2, 0x0247), (0x0370, 0x0372, 2, 0x0371),
     (0x0376, 0x0376, 1, 0x0377), (0x037F, 0x037F, 1, 0x03F3), (0x0386, 0x0386, 1, 0x03AC),
     (0x0388, 0x038A, 1, 0x03AD), (0x038C, 0x038C, 1, 0x03CC), (0x038E, 0x038F, 1, 0x03CD),
     (0x0391, 0x03A1, 1, 0x03B1), (0x03A3, 0x03AB, 1, 0x03C3), (0x03CF, 0x03CF, 1, 0x03D7),
     (0x03D8, 0x03EE, 2, 0x03D9), (0x03F4, 0x03F4, 1, 0x03B8), (0x03F7, 0x03F7, 1, 0x03F8),
     (0x03F9, 0x03F9, 1, 0x03F2), (0x03FA, 0x03FA, 1, 0x03FB), (0x03FD, 0x03FF, 1, 0x037B),
     (0x0400, 0x040F, 1, 0x0450), (0x0410, 0x042F, 1, 0x0430), (0x0460, 0x0480, 2, 0x0461),
     (0x048A, 0x04BE, 2, 0x048B), (0x04C0, 0x04C0, 1, 0x04CF), (0x04C1, 0x04CD, 2, 0x04C2),
     (0x04D0, 0x052E, 2, 0x04D1), (0x0531, 0x0556, 1, 0x0561), (0x10A0, 0x10C5, 1, 0x2D00),
     (0x10C7, 0x10C7, 1, 0x2D27), (0x10CD, 0x10CD, 1, 0x2D2D), (0x13A0, 0x13EF, 1, 0xAB70),
     (0x13F0, 0x13F5, 1, 0x13F8), (0x1C90, 0x1CBA, 1, 0x10D0), (0x1CBD, 0x1CBF, 1, 0x10FD),
     (0x1E00, 0x1E94, 2, 0x1E01), (0x1E9E, 0x1E9E, 1, 0x00DF), (0x1EA0, 0x1EFE, 2, 0x1EA1),
     (0x1F08, 0x1F0F, 1, 0x1F00), (0x1F18, 0x1F1D, 1, 0x1F10), (0x1F28, 0x1F2F, 1, 0x1F20),
     (0x1F38, 0x1F3F, 1, 0x1F30), (0x1F48, 0x1F4D, 1, 0x1F40), (0x1F59, 0x1F5F, 2, 0x1F51),
     (0x1F68, 0x1F6F, 1, 0x1F60), (0x1F88, 0x1F8F, 1, 0x1F80), (0x1F98, 0x1F9F, 1, 0x1F90),
     (0x1FA8, 0x1FAF, 1, 0x1FA0), (0x1FB8, 0x1FB9, 1, 0x1FB0), (0x1FBA, 0x1FBB, 1, 0x1F70),
     (0x1FBC, 0x1FBC, 1, 0x1FB3), (0x1FC8, 0x1FCB, 1, 0x1F72), (0x1FCC, 0x1FCC, 1, 0x1FC3),
     (0x1FD8, 0x1FD9, 1, 0x1FD0), (0x1FDA, 0x1FDB, 1, 0x1F76), (0x1FE8, 0x1FE9, 1, 0x1FE0),
     (0x1FEA, 0x1FEB, 1, 0x1F7A), (0x1FEC, 0x1FEC, 1, 0x1FE5), (0x1FF8, 0x1FF9, 1, 0x1F78),
     (0x1FFA, 0x1FFB, 1, 0x1F7C), (0x1FFC, 0x1FFC, 1, 0x1FF3), (0x2126, 0x2126, 1, 0x03C9),
     (0x212A, 0x212A, 1, 0x006B), (0x212B, 0x212B, 1, 0x00E5), (0x2132, 0x2132, 1, 0x214E),
     (0x2160, 0x216F, 1, 0x2170), (0x2183, 0x2183, 1, 0x2184), (0x24B6, 0x24CF, 1, 0x24D0),
     (0x2C00, 0x2C2F, 1, 0x2C30), (0x2C60, 0x2C60, 1, 0x2C61), (0x2C62, 0x2C62, 1, 0x026B),
     (0x2C63, 0x2C63, 1, 0x1D7D), (0x2C64, 0x2C64, 1, 0x027D), (0x2C67, 0x2C6B, 2, 0x2C68),
     (0x2C6D, 0x2C6D, 1, 0x0251), (0x2C6E, 0x2C6E, 1, 0x0271), (0x2C6F, 0x2C6F, 1, 0x0250),
     (0x2C70, 0x2C70, 1, 0x0252), (0x2C72, 0x2C72, 1, 0x2C73), (0x2C75, 0x2C75, 1, 0x2C76),
     (0x2C7E, 0x2C7F, 1, 0x023F), (0x2C80, 0x2CE2, 2, 0x2C81), (0x2CEB, 0x2CED, 2, 0x2CEC),
     (0x2CF2, 0x2CF2, 1, 0x2CF3), (0xA640, 0xA66C, 2, 0xA641), (0xA680, 0xA69A, 2, 0xA681),
     (0xA722, 0xA72E, 2, 0xA723), (0xA732, 0xA76E, 2, 0xA733), (0xA779, 0xA77B, 2, 0xA77A),
     (0xA77D, 0xA77D, 1, 0x1D79), (0xA77E, 0xA786, 2, 0xA77F), (0xA78B, 0xA78B, 1, 0xA78C),
     (0xA78D, 0xA78D, 1, 0x0265), (0xA790, 0xA792, 2, 0xA791), (0xA796, 0xA7A8, 2, 0xA797),
     (0xA7AA, 0xA7AA, 1, 0x0266), (0xA7AB, 0xA7AB, 1, 0x025C), (0xA7AC, 0xA7AC, 1, 0x0261),
     (0xA7AD, 0xA7AD, 1, 0x026C), (0xA7AE, 0xA7AE, 1, 0x026A), (0xA7B0, 0xA7B0, 1, 0x029E),
     (0xA7B1, 0xA7B1, 1, 0x0287), (0xA7B2, 0xA7B2, 1, 0x029D), (0xA7B3, 0xA7B3, 1, 0xAB53),
     (0xA7B4, 0xA7C2, 2, 0xA7B5), (0xA7C4, 0xA7C4, 1, 0xA794), (0xA7C5, 0xA7C5, 1, 0x0282),
     (0xA7C6, 0xA7C6, 1, 0x1D8E), (0xA7C7, 0xA7C9, 2, 0xA7C8), (0xA7D0, 0xA7D0, 1, 0xA7D1),
     (0xA7D6, 0xA7D8, 2, 0xA7D7), (0xA7F5, 0xA7F5, 1, 0xA7F6), (0xFF21, 0xFF3A, 1, 0xFF41)]"

fun lookup_lower :: "code_unit \<Rightarrow> (code_unit \<times> code_unit \<times> nat \<times> code_unit) list \<Rightarrow> code_unit option" where
  "lookup_lower c [] = None"
| "lookup_lower c ((lo, hi, step, t) # rest) =
     (if lo \<le> c \<and> c \<le> hi \<and> (c - lo) mod step = 0 then Some (t + (c - lo))
      else lookup_lower c rest)"

definition toLowerChar :: "code_unit \<Rightarrow> code_unit" where
  "toLowerChar c = (case lookup_lower c lower_table of Some l \<Rightarrow> l | None \<Rightarrow> c)"

text \<open>
  \<^verbatim>\<open>s.toLowerCase()\<close>, code unit by code unit. JavaScript departs from that in three
  places: U+0130 becomes the two code units U+0069 U+0307, U+03A3 at the end of a word
  becomes U+03C2 and not U+03C3, and a capital letter outside the basic plane, which is two
  surrogate code units, becomes two other surrogates. In each of them the result, in
  JavaScript as here, holds a code unit above U+007F, so it is neither \<^verbatim>\<open>cmd\<close> nor a
  word of the denylist, which is all the guard asks of a lower-cased string.
\<close>

definition toLowerCase :: "js_string \<Rightarrow> js_string" where
  "toLowerCase s = map toLowerChar s"

text \<open>\<^verbatim>\<open>s.trim()\<close>: white space is dropped at both ends.\<close>

definition trim :: "js_string \<Rightarrow> js_string" where
  "trim s = rev (dropWhile isSpace (rev (dropWhile isSpace s)))"

text \<open>
  \<^verbatim>\<open>s.split(/\s+/)\<close>: the pieces between maximal runs of white space. A run at the
  start or at the end leaves an empty piece there, and the empty string gives one empty
  piece, so the result is never the empty array. The first argument is the piece being
  read, reversed.
\<close>

function split_ws :: "js_string \<Rightarrow> js_string \<Rightarrow> js_string list" where
  "split_ws cur [] = [rev cur]"
| "split_ws cur (c # cs) =
     (if isSpace c then rev cur # split_ws [] (dropWhile isSpace cs)
      else split_ws (c # cur) cs)"
  by pat_completeness auto
termination
  by (relation "measure (\<lambda>(cur, s). length s)") (auto simp: length_dropWhile_le less_Suc_eq_le)

text \<open>\<^verbatim>\<open>s.split('\n')\<close>: the segments between line feeds, one more than there are line feeds.\<close>

fun split_nl :: "string \<Rightarrow> string list" where
  "split_nl [] = [[]]"
| "split_nl (c # cs) =
     (if c = CHR 0x0A then [] # split_nl cs
      else (c # hd (split_nl cs)) # tl (split_nl cs))"

text \<open>\<^verbatim>\<open>xs.join('\n')\<close>.\<close>

fun join_nl :: "string list \<Rightarrow> string" where
  "join_nl [] = []"
| "join_nl [x] = x"
| "join_nl (x # y # ys) = x @ CHR 0x0A # join_nl (y # ys)"

text \<open>
  \<^verbatim>\<open>xs.slice(k)\<close> for an integer \<open>k\<close>: a negative \<open>k\<close> counts from the end, and a start
  outside the array is clamped to it.
\<close>

definition slice :: "'a list \<Rightarrow> int \<Rightarrow> 'a list" where
  "slice xs k =
     (let n = int (length xs);
          start = (if k < 0 then max (n + k) 0 else min k n)
      in drop (nat start) xs)"

text \<open>Decimal numerals, as template strings print numbers.\<close>

function show_nat :: "nat \<Rightarrow> string" where
  "show_nat n =
     (if n < 10 then [char_of (48 + n)]
      else show_nat (n div 10) @ [char_of (48 + n mod 10)])"
  by pat_completeness auto
termination
  by (relation "measure id") auto

declare show_nat.simps [simp del]

definition show_int :: "int \<Rightarrow> string" where
  "show_int i = (if i < 0 then CHR ''-'' # show_nat (nat (- i)) else show_nat (nat i))"

section \<open>Command Guard\<close>

definition BLACKLISTED :: "js_string list" where
  "BLACKLISTED = map js [''rm'', ''rmdir'', ''del'', ''format'', ''mkfs'', ''dd'', ''chmod'', ''chown'',
     ''sudo'', ''su'', ''shutdown'', ''reboot'']"

text \<open>
  A letter of the pattern, written in lower case, under the flag \<^verbatim>\<open>i\<close>: it matches
  itself and its capital. The flag compares the upper-casings of the two code units, and
  never lets a code unit above U+007F count as one below, so no other code unit matches.
\<close>

definition matches_ci :: "char \<Rightarrow> code_unit \<Rightarrow> bool" where
  "matches_ci p c = (c = of_char p \<or> c + 32 = of_char p)"

text \<open>
  \<^verbatim>\<open>cmd.match(/cmd\s+\/c\s+["']?(\w+)/i)\<close>. \<open>cmd_c_match_at\<close> tries the pattern at the
  head of the string and returns the captured group. Each greedy quantifier is followed by
  something its own class excludes (white space by a slash, a quote or a word character;
  the optional quote by a word character), so the longest choice is the only one that can
  succeed and no backtracking is lost. \<open>cmd_c_match\<close> is the search: the leftmost
  position where the pattern matches, \<open>None\<close> for \<^verbatim>\<open>null\<close>.
\<close>

definition cmd_c_match_at :: "js_string \<Rightarrow> js_string option" where
  "cmd_c_match_at s =
     (case s of
        c1 # c2 # c3 # r0 \<Rightarrow>
          if matches_ci (CHR ''c'') c1 \<and> matches_ci (CHR ''m'') c2 \<and> matches_ci (CHR ''d'') c3
             \<and> takeWhile isSpace r0 \<noteq> []
          then (case dropWhile isSpace r0 of
                  s1 # s2 # r1 \<Rightarrow>
                    if s1 = 0x2F \<and> matches_ci (CHR ''c'') s2 \<and> takeWhile isSpace r1 \<noteq> []
                    then (let r2 = dropWhile isSpace r1;
                              r3 = (case r2 of
                                      q # r \<Rightarrow> if q = 0x22 \<or> q = 0x27 then r else r2
                                    | [] \<Rightarrow> r2);
                              w = takeWhile isWord r3
                          in if w = [] then None else Some w)
                    else None
                | _ \<Rightarrow> None)
          else None
      | _ \<Rightarrow> None)"

fun cmd_c_match :: "js_string \<Rightarrow> js_string option" where
  "cmd_c_match [] = cmd_c_match_at []"
| "cmd_c_match (c # cs) =
     (case cmd_c_match_at (c # cs) of
        Some w \<Rightarrow> Some w
      | None \<Rightarrow> cmd_c_match cs)"

definition validateCommand :: "js_string \<Rightarrow> bool" where
  "validateCommand cmd =
     (let base = toLowerCase (hd (split_ws [] (trim cmd)))
      in if base = js ''cmd''
         then (case cmd_c_match cmd of
                 Some m1 \<Rightarrow> \<not> List.member BLACKLISTED (toLowerCase m1)
               | None \<Rightarrow> \<not> List.member BLACKLISTED base)
         else \<not> List.member BLACKLISTED base)"

section \<open>Job records and the registry\<close>

datatype status = Running | Done | Error | Killed

type_synonym handle = nat

text \<open>
  The object built by \<^verbatim>\<open>createJob\<close>. \<open>exitCode\<close> is \<open>None\<close> for \<^verbatim>\<open>null\<close>, and
  \<open>proc\<close> is \<open>None\<close> for \<^verbatim>\<open>null\<close> and otherwise the handle of the child process.
  Time stamps are readings of \<^verbatim>\<open>Date.now()\<close>, in milliseconds.
\<close>

record job =
  id_job :: string
  command :: js_string
  shell :: string
  status :: status
  stdout :: string
  stderr :: string
  exitCode :: "int option"
  startTime :: int
  lastOutputTime :: int
  outputLines :: int
  proc :: "handle option"

datatype signal = SIGTERM | SIGKILL

text \<open>What the engine asks of the operating system and of the timer queue.\<close>

datatype effect =
    Spawn string "js_string list"
  | Kill handle signal
  | SetTimeout string nat

text \<open>
  The module's variables: \<open>jobs\<close> is the \<^verbatim>\<open>Map\<close>, kept in insertion order as an
  association list; \<open>jobCounter\<close> is the counter; \<open>effects\<close> logs the requests made so far,
  oldest first.
\<close>

record state =
  jobs :: "(string \<times> job) list"
  jobCounter :: nat
  effects :: "effect list"

record platform =
  isWindows :: bool
  gitBashPath :: "string option"

definition init_state :: state where
  "init_state = \<lparr> jobs = [], jobCounter = 0, effects = [] \<rparr>"

text \<open>
  \<^verbatim>\<open>createJob(command, shell)\<close>. \<open>h\<close> is the handle \<^verbatim>\<open>spawn\<close> returns; \<open>t_id\<close>,
  \<open>t_start\<close> and \<open>t_last\<close> are the three clock readings, in the order the source takes
  them. The four listeners it attaches are \<open>on_stdout_data\<close>, \<open>on_stderr_data\<close>,
  \<open>on_close\<close> and \<open>on_error\<close> below.
\<close>

definition createJob ::
  "platform \<Rightarrow> handle \<Rightarrow> int \<Rightarrow> int \<Rightarrow> int \<Rightarrow> js_string \<Rightarrow> string \<Rightarrow> state
     \<Rightarrow> state \<times> string" where
  "createJob pf h t_id t_start t_last cmd sh st =
     (let n = Suc (jobCounter st);
          i = ''job_'' @ show_nat n @ ''_'' @ show_int t_id;
          job = \<lparr> id_job = i, command = cmd, shell = sh, status = Running, stdout = [],
                  stderr = [], exitCode = None, startTime = t_start, lastOutputTime = t_last,
                  outputLines = 0, proc = Some h \<rparr>;
          launch =
            (if isWindows pf
             then (case gitBashPath pf of
                     Some bash \<Rightarrow>
                       if sh = ''bash'' then Spawn bash [js ''-c'', cmd]
                       else Spawn ''cmd'' [js ''/c'', cmd]
                   | None \<Rightarrow> Spawn ''cmd'' [js ''/c'', cmd])
             else Spawn ''/bin/bash'' [js ''-c'', cmd])
      in (st\<lparr> jobs := AList.update i job (jobs st), jobCounter := n,
               effects := effects st @ [launch] \<rparr>, i))"

subsection \<open>The listeners\<close>

definition on_stdout_data :: "string \<Rightarrow> int \<Rightarrow> job \<Rightarrow> job" where
  "on_stdout_data text now job =
     job\<lparr> stdout := stdout job @ text, lastOutputTime := now,
          outputLines := outputLines job + (int (length (split_nl text)) - 1) \<rparr>"

definition on_stderr_data :: "string \<Rightarrow> int \<Rightarrow> job \<Rightarrow> job" where
  "on_stderr_data text now job = job\<lparr> stderr := stderr job @ text, lastOutputTime := now \<rparr>"

definition on_close :: "int option \<Rightarrow> job \<Rightarrow> job" where
  "on_close code job = job\<lparr> status := Done, exitCode := code, proc := None \<rparr>"

definition on_error :: "string \<Rightarrow> job \<Rightarrow> job" where
  "on_error message job =
     job\<lparr> status := Error, stderr := stderr job @ CHR 0x0A # ''Process error: '' @ message,
          proc := None \<rparr>"

text \<open>
  What the event loop can deliver to a job: a chunk on either stream with the clock reading
  taken in the listener, the close of the process with its exit code (\<^verbatim>\<open>null\<close> when a
  signal ended it), a process error with its message, and the timer \<^verbatim>\<open>killJob\<close> sets.
\<close>

datatype event =
    StdoutData string int
  | StderrData string int
  | Close "int option"
  | ProcError string
  | KillTimeout

fun listener :: "event \<Rightarrow> job \<Rightarrow> job" where
  "listener (StdoutData text now) job = on_stdout_data text now job"
| "listener (StderrData text now) job = on_stderr_data text now job"
| "listener (Close code) job = on_close code job"
| "listener (ProcError message) job = on_error message job"
| "listener KillTimeout job = job"

text \<open>
  A callback runs on the job object it closed over. The model finds that object in the
  registry by its identifier; a callback on a job no longer registered is not modelled,
  since nothing can observe that object again.
\<close>

definition deliver :: "string \<Rightarrow> event \<Rightarrow> state \<Rightarrow> state" where
  "deliver i ev st =
     (case map_of (jobs st) i of
        None \<Rightarrow> st
      | Some job \<Rightarrow>
          (case ev of
             KillTimeout \<Rightarrow>
               (case proc job of
                  Some h \<Rightarrow> st\<lparr> effects := effects st @ [Kill h SIGKILL] \<rparr>
                | None \<Rightarrow> st)
           | _ \<Rightarrow> st\<lparr> jobs := AList.update i (listener ev job) (jobs st) \<rparr>))"

section \<open>Poll Engine\<close>

record poll_result =
  id_poll :: string
  status_poll :: status
  exitCode_poll :: "int option"
  elapsedMs :: int
  idleSinceMs :: int
  totalLines :: nat
  fromLine :: int
  output_poll :: string
  stderr_poll :: string
  isStalled :: bool

text \<open>
  \<^verbatim>\<open>pollJob(id, fromLine)\<close>. \<open>Inl\<close> carries the text of \<^verbatim>\<open>{ error: ... }\<close>. \<open>t1\<close> and
  \<open>t2\<close> are the two clock readings, for \<^verbatim>\<open>elapsed\<close> and for \<^verbatim>\<open>idleTime\<close>.
\<close>

definition pollJob :: "state \<Rightarrow> string \<Rightarrow> int \<Rightarrow> int \<Rightarrow> int \<Rightarrow> string + poll_result" where
  "pollJob st i from t1 t2 =
     (case map_of (jobs st) i of
        None \<Rightarrow> Inl (''Job not found: '' @ i)
      | Some job \<Rightarrow>
          (let lines = split_nl (stdout job);
               newOutput = join_nl (slice lines from);
               elapsed = t1 - startTime job;
               idleTime = t2 - lastOutputTime job
           in Inr \<lparr> id_poll = id_job job, status_poll = status job, exitCode_poll = exitCode job,
                    elapsedMs = elapsed, idleSinceMs = idleTime, totalLines = length lines,
                    fromLine = from, output_poll = newOutput, stderr_poll = stderr job,
                    isStalled = (idleTime > 30000 \<and> status job = Running) \<rparr>))"

section \<open>Termination Controller\<close>

text \<open>\<^verbatim>\<open>killJob(id)\<close>. \<open>Inr i\<close> is \<^verbatim>\<open>{ success: true, id }\<close>.\<close>

definition killJob :: "state \<Rightarrow> string \<Rightarrow> state \<times> (string + string)" where
  "killJob st i =
     (case map_of (jobs st) i of
        None \<Rightarrow> (st, Inl (''Job not found: '' @ i))
      | Some job \<Rightarrow>
          (let st1 = (case proc job of
                        Some h \<Rightarrow> st\<lparr> effects := effects st @ [Kill h SIGTERM, SetTimeout i 1000] \<rparr>
                      | None \<Rightarrow> st)
           in (st1\<lparr> jobs := AList.update i (job\<lparr> status := Killed \<rparr>) (jobs st1) \<rparr>, Inr i)))"

section \<open>Listing, removal and the reaper\<close>

record summary =
  id_sum :: string
  command_sum :: js_string
  status_sum :: status
  elapsedMs_sum :: int
  outputLines_sum :: int

text \<open>\<^verbatim>\<open>listJobs()\<close>. The clock is read once for each entry: \<open>clock k\<close> is the reading for entry \<open>k\<close>.\<close>

definition listJobs :: "(nat \<Rightarrow> int) \<Rightarrow> state \<Rightarrow> summary list" where
  "listJobs clock st =
     map (\<lambda>(k, (i, job)).
            \<lparr> id_sum = i, command_sum = take 100 (command job), status_sum = status job,
              elapsedMs_sum = clock k - startTime job, outputLines_sum = outputLines job \<rparr>)
         (enumerate 0 (jobs st))"

text \<open>\<^verbatim>\<open>cleanupJob(id)\<close>. \<open>Inr ()\<close> is \<^verbatim>\<open>{ success: true }\<close>.\<close>

definition cleanupJob :: "state \<Rightarrow> string \<Rightarrow> state \<times> (string + unit)" where
  "cleanupJob st i =
     (case map_of (jobs st) i of
        Some job \<Rightarrow>
          if status job \<noteq> Running
          then (st\<lparr> jobs := AList.delete i (jobs st) \<rparr>, Inr ())
          else (st, Inl ''Job still running or not found'')
      | None \<Rightarrow> (st, Inl ''Job still running or not found''))"

text \<open>
  The body of the \<^verbatim>\<open>setInterval\<close> callback: one sweep over the entries of the map,
  deleting from it as it goes.
\<close>

definition expired :: "int \<Rightarrow> job \<Rightarrow> bool" where
  "expired now job = (status job \<noteq> Running \<and> now - startTime job > 300000)"

definition reaper :: "int \<Rightarrow> state \<Rightarrow> state" where
  "reaper now st =
     st\<lparr> jobs := fold (\<lambda>(i, job) js. if expired now job then AList.delete i js else js)
                       (jobs st) (jobs st) \<rparr>"

section \<open>The tool calls of \<^verbatim>\<open>handleRequest\<close>\<close>

text \<open>
  The branches of \<^verbatim>\<open>tools/call\<close> that reach the engine, each from the state before to the
  state after and the reply. \<open>start_command\<close> replies with the text
  \<^verbatim>\<open>Error: Command blacklisted\<close> (\<open>Inl\<close>) or with the new identifier and the shell;
  \<open>shell_arg\<close> is \<open>None\<close> when the argument is missing. \<open>poll_command\<close> takes
  \<^verbatim>\<open>args.from_line || 0\<close> as an integer, 0 when the argument is missing.
\<close>

definition start_command ::
  "platform \<Rightarrow> handle \<Rightarrow> int \<Rightarrow> int \<Rightarrow> int \<Rightarrow> js_string \<Rightarrow> string option \<Rightarrow> state
     \<Rightarrow> state \<times> (string + string \<times> string)" where
  "start_command pf h t_id t_start t_last cmd shell_arg st =
     (if \<not> validateCommand cmd then (st, Inl ''Error: Command blacklisted'')
      else (let sh = (case shell_arg of
                        None \<Rightarrow> ''cmd''
                      | Some s \<Rightarrow> if s = [] then ''cmd'' else s);
                (st', jobId) = createJob pf h t_id t_start t_last cmd sh st
            in (st', Inr (jobId, sh))))"

definition poll_command ::
  "string \<Rightarrow> int \<Rightarrow> int \<Rightarrow> int \<Rightarrow> state \<Rightarrow> state \<times> (string + poll_result)" where
  "poll_command i from t1 t2 st = (st, pollJob st i from t1 t2)"

definition kill_command :: "string \<Rightarrow> state \<Rightarrow> state \<times> (string + string)" where
  "kill_command i st = killJob st i"

definition list_jobs :: "(nat \<Rightarrow> int) \<Rightarrow> state \<Rightarrow> state \<times> summary list" where
  "list_jobs clock st = (st, listJobs clock st)"

section \<open>Operations on one job, in any order\<close>

text \<open>
  What can reach a registered job between two observations: a callback of the event loop
  for some job, a \<^verbatim>\<open>kill_command\<close> call, a \<^verbatim>\<open>poll_command\<close> call.
\<close>

datatype action =
    Callback string event
  | KillCall string
  | PollCall string int int int

fun perform :: "action \<Rightarrow> state \<Rightarrow> state" where
  "perform (Callback i ev) st = deliver i ev st"
| "perform (KillCall i) st = fst (kill_command i st)"
| "perform (PollCall i k t1 t2) st = fst (poll_command i k t1 t2 st)"

definition terminal :: "status \<Rightarrow> bool" where
  "terminal s = (s = Done \<or> s = Error \<or> s = Killed)"

text \<open>The text of \<^verbatim>\<open>{ error: ... }\<close> in a result, if it is one.\<close>

definition error_of :: "string + 'a \<Rightarrow> string option" where
  "error_of r = (case r of Inl e \<Rightarrow> Some e | Inr _ \<Rightarrow> None)"

section \<open>The guard's rule in the specification's words\<close>

text \<open>
  The specification states the guard on white-space-delimited tokens: the first token,
  lower-cased, is looked up in the denylist, unless it is \<^verbatim>\<open>cmd\<close> followed by the flag
  \<^verbatim>\<open>/c\<close>, in which case the first token of the wrapped command is looked up instead.
  \<open>first_token\<close> is the first maximal run of characters that are not white space and
  \<open>after_token\<close> is what follows it. \<open>validate_spec\<close> is that rule; it is compared with
  \<open>validateCommand\<close> below.
\<close>

definition first_token :: "js_string \<Rightarrow> js_string" where
  "first_token s = takeWhile (\<lambda>c. \<not> isSpace c) (dropWhile isSpace s)"

definition after_token :: "js_string \<Rightarrow> js_string" where
  "after_token s = dropWhile (\<lambda>c. \<not> isSpace c) (dropWhile isSpace s)"

definition validate_spec :: "js_string \<Rightarrow> bool" where
  "validate_spec cmd =
     (let t1 = toLowerCase (first_token cmd);
          t2 = toLowerCase (first_token (after_token cmd));
          t3 = toLowerCase (first_token (after_token (after_token cmd)))
      in if t1 = js ''cmd'' \<and> t2 = js ''/c'' then \<not> List.member BLACKLISTED t3
         else \<not> List.member BLACKLISTED t1)"

section \<open>A run of the engine\<close>

text \<open>
  A Linux host; \<^verbatim>\<open>ls -la\<close> submitted at time 1000, which registers \<^verbatim>\<open>job_1_1000\<close>
  with process handle 7; then either the chunk \<^verbatim>\<open>a\nb\nc\n\<close> on standard output at
  time 1005, or the close of the process with exit code 0.
\<close>

definition linux :: platform where
  "linux = \<lparr> isWindows = False, gitBashPath = None \<rparr>"

definition st_started :: state where
  "st_started = fst (start_command linux 7 1000 1000 1000 (js ''ls -la'') None init_state)"

definition st_abc :: state where
  "st_abc = deliver ''job_1_1000'' (StdoutData ''a\<newline>b\<newline>c\<newline>'' 1005) st_started"

definition st_done :: state where
  "st_done = deliver ''job_1_1000'' (Close (Some 0)) st_started"

text \<open>
  Three submissions, at times 1000, 2000 and 400000; the first and the third process have
  closed, the second is still running.
\<close>

definition st_three :: state where
  "st_three =
     deliver ''job_3_400000'' (Close (Some 1))
       (deliver ''job_1_1000'' (Close (Some 0))
          (fst (start_command linux 9 400000 400000 400000 (js ''echo hi'') None
             (fst (start_command linux 8 2000 2000 2000 (js ''sleep 900'') None st_started)))))"

text \<open>The number of line feeds in a string.\<close>

definition newlines :: "string \<Rightarrow> int" where
  "newlines s = int (count_list s (CHR 0x0A))"

section \<open>Facts about strings and tokens\<close>

lemma split_nl_nonempty: "split_nl s \<noteq> []"
  by (induction s) auto

lemma length_split_nl: "length (split_nl s) = Suc (count_list s (CHR 0x0A))"
  by (induction s) auto

lemma hd_split_ws: "hd (split_ws cur s) = rev cur @ takeWhile (\<lambda>c. \<not> isSpace c) s"
  by (induction s arbitrary: cur) auto

lemma takeWhile_not_append_all:
  "\<forall>x \<in> set b. P x \<Longrightarrow> takeWhile (\<lambda>c. \<not> P c) (a @ b) = takeWhile (\<lambda>c. \<not> P c) a"
proof (induction a)
  case Nil
  then show ?case by (cases b) simp_all
next
  case (Cons x a)
  then show ?case by simp
qed

lemma strip_tail_decomp: "r = rev (dropWhile P (rev r)) @ rev (takeWhile P (rev r))"
  by (metis rev_append rev_rev_ident takeWhile_dropWhile_id)

lemma takeWhile_strip_tail:
  "takeWhile (\<lambda>c. \<not> P c) (rev (dropWhile P (rev r))) = takeWhile (\<lambda>c. \<not> P c) r"
proof -
  have "\<forall>x \<in> set (rev (takeWhile P (rev r))). P x"
    by (auto dest: set_takeWhileD)
  from takeWhile_not_append_all [OF this, of "rev (dropWhile P (rev r))"]
  show ?thesis using strip_tail_decomp [of r P] by simp
qed

text \<open>The token the source takes with \<^verbatim>\<open>cmd.trim().split(/\s+/)[0]\<close> is the first token.\<close>

lemma base_is_first_token: "hd (split_ws [] (trim cmd)) = first_token cmd"
  by (simp add: hd_split_ws trim_def first_token_def takeWhile_strip_tail)

text \<open>Facts about the lower-case table.\<close>

lemma lookup_lower_below:
  "\<forall>(lo, hi, step, t) \<in> set tbl. c < lo \<Longrightarrow> lookup_lower c tbl = None"
  by (induction tbl) auto

lemma lookup_lower_hit:
  "lookup_lower c tbl = Some l \<Longrightarrow>
   \<exists>(lo, hi, step, t) \<in> set tbl. lo \<le> c \<and> c \<le> hi \<and> l = t + (c - lo)"
  by (induction tbl) (auto split: if_splits)

lemma lower_table_ascii:
  "lower_table = (0x41, 0x5A, 1, 0x61) # tl lower_table"
  "\<forall>(lo, hi, step, t) \<in> set (tl lower_table). 128 \<le> lo"
  by (simp_all add: lower_table_def)

text \<open>
  Every image in the table is a code unit from the letter a on, and only two entries have
  images among the letters a..z: the letters A..Z, and the Kelvin sign with image k.
\<close>

lemma lower_table_images:
  "\<forall>(lo, hi, step, t) \<in> set lower_table.
     97 \<le> t \<and> (t \<le> 122 \<longrightarrow> (lo = 0x41 \<and> t = 0x61) \<or> (lo = 0x212A \<and> hi = 0x212A \<and> t = 0x6B))"
  by (simp add: lower_table_def)

lemma toLowerChar_ascii:
  assumes "c < 128"
  shows "toLowerChar c = (if 65 \<le> c \<and> c \<le> 90 then c + 32 else c)"
proof -
  have "\<forall>(lo, hi, step, t) \<in> set (tl lower_table). c < lo"
    using lower_table_ascii(2) assms by fastforce
  then have n: "lookup_lower c (tl lower_table) = None" by (rule lookup_lower_below)
  have "lookup_lower c lower_table
      = (if 65 \<le> c \<and> c \<le> 90 then Some (97 + (c - 65)) else None)"
    by (subst lower_table_ascii(1)) (simp add: n)
  then show ?thesis by (auto simp: toLowerChar_def)
qed

lemma toLowerChar_kelvin: "toLowerChar 0x212A = 0x6B"
  by (simp add: toLowerChar_def lower_table_def)

lemma lower_slash:
  assumes "toLowerChar c = 0x2F"
  shows "c = 0x2F"
proof (cases "lookup_lower c lower_table")
  case None
  then show ?thesis using assms by (simp add: toLowerChar_def)
next
  case (Some l)
  then have l: "l = 0x2F" using assms by (simp add: toLowerChar_def)
  from lookup_lower_hit [OF Some] lower_table_images
  have "97 \<le> l" by fastforce
  with l show ?thesis by simp
qed

text \<open>
  A code unit that lower-cases to one of the letters a..z other than k is that letter or its
  capital, which is what the pattern matches under the flag \<^verbatim>\<open>i\<close>.
\<close>

lemma lower_letter:
  assumes "toLowerChar c = l" and "97 \<le> l" and "l \<le> 122" and "l \<noteq> 0x6B"
  shows "c = l \<or> c + 32 = l"
proof (cases "lookup_lower c lower_table")
  case None
  then show ?thesis using assms by (simp add: toLowerChar_def)
next
  case (Some m)
  then have m: "m = l" using assms(1) by (simp add: toLowerChar_def)
  from lookup_lower_hit [OF Some] obtain lo hi step t where
    e: "(lo, hi, step, t) \<in> set lower_table" and r: "lo \<le> c" "c \<le> hi" "m = t + (c - lo)"
    by auto
  from r(3) m assms(3) have "t \<le> 122" by simp
  with lower_table_images e
  have "(lo = 0x41 \<and> t = 0x61) \<or> (lo = 0x212A \<and> hi = 0x212A \<and> t = 0x6B)" by fastforce
  then show ?thesis
  proof
    assume "lo = 0x41 \<and> t = 0x61"
    with r m show ?thesis by simp
  next
    assume "lo = 0x212A \<and> hi = 0x212A \<and> t = 0x6B"
    with r m assms(4) show ?thesis by simp
  qed
qed

lemma lower_matches_ci:
  "toLowerChar c = of_char (CHR ''c'') \<Longrightarrow> matches_ci (CHR ''c'') c"
  "toLowerChar c = of_char (CHR ''m'') \<Longrightarrow> matches_ci (CHR ''m'') c"
  "toLowerChar c = of_char (CHR ''d'') \<Longrightarrow> matches_ci (CHR ''d'') c"
  using lower_letter [of c] by (auto simp: matches_ci_def)

lemma cmd_not_blacklisted: "js ''cmd'' \<notin> set BLACKLISTED"
  by (simp add: BLACKLISTED_def js_def)

lemma space_not_word: "isSpace c \<Longrightarrow> \<not> isWord c"
  by (auto simp: isSpace_def isWord_def)

lemma space_not_c: "isSpace c \<Longrightarrow> \<not> matches_ci (CHR ''c'') c"
  by (auto simp: isSpace_def matches_ci_def)

lemma slash_not_space: "\<not> isSpace 0x2F"
  by (simp add: isSpace_def)

lemma word_not_quote: "isWord c \<Longrightarrow> c \<noteq> 0x22 \<and> c \<noteq> 0x27"
  by (auto simp: isWord_def)

lemma takeWhile_word_stop:
  assumes "\<forall>x \<in> set t. isWord x" and "a = [] \<or> \<not> isWord (hd a)"
  shows "takeWhile isWord (t @ a) = t"
proof -
  have "takeWhile isWord a = []" using assms(2) by (cases a) auto
  then show ?thesis using assms(1) by (simp add: takeWhile_append2)
qed

lemma leading_decomp: "s = takeWhile isSpace s @ first_token s @ after_token s"
  by (simp add: first_token_def after_token_def)

lemma after_token_head: "after_token s = [] \<or> isSpace (hd (after_token s))"
  using hd_dropWhile [of "\<lambda>c. \<not> isSpace c" "dropWhile isSpace s"]
  by (auto simp: after_token_def)

lemma first_token_Nil: "first_token [] = []"
  by (simp add: first_token_def)

lemma gap_nonempty:
  assumes "first_token (after_token s) \<noteq> []"
  shows "takeWhile isSpace (after_token s) \<noteq> []"
proof -
  have ne: "after_token s \<noteq> []" using assms first_token_Nil by fastforce
  then have "isSpace (hd (after_token s))" using after_token_head [of s] by simp
  with ne show ?thesis by (cases "after_token s") auto
qed

section \<open>Command Guard: what is rejected\<close>

lemma match_at_space: "isSpace c \<Longrightarrow> cmd_c_match_at (c # cs) = None"
  by (auto simp: cmd_c_match_at_def space_not_c split: list.splits)

lemma match_skip_spaces: "\<forall>x \<in> set w. isSpace x \<Longrightarrow> cmd_c_match (w @ s) = cmd_c_match s"
  by (induction w) (simp_all add: match_at_space)

lemma match_found: "cmd_c_match_at s = Some w \<Longrightarrow> cmd_c_match s = Some w"
  by (cases s) simp_all

text \<open>
  The pattern at the head of \<^verbatim>\<open>cmd\<close>, white space, \<^verbatim>\<open>/c\<close>, white space, a run of word
  characters and then the end or something that is not a word character: the run is captured.
\<close>

lemma match_at_shape:
  assumes c: "matches_ci (CHR ''c'') c1" "matches_ci (CHR ''m'') c2" "matches_ci (CHR ''d'') c3"
    and w1: "w1 \<noteq> []" "\<forall>x \<in> set w1. isSpace x"
    and s2: "matches_ci (CHR ''c'') s2"
    and w2: "w2 \<noteq> []" "\<forall>x \<in> set w2. isSpace x"
    and t3: "t3 \<noteq> []" "\<forall>x \<in> set t3. isWord x"
    and a3: "a3 = [] \<or> \<not> isWord (hd a3)"
  shows "cmd_c_match_at (c1 # c2 # c3 # w1 @ 0x2F # s2 # w2 @ t3 @ a3) = Some t3"
proof -
  obtain q t where q: "t3 = q # t" using t3(1) by (cases t3) auto
  have qw: "isWord q" using t3(2) q by simp
  then have qs: "\<not> isSpace q" using space_not_word by blast
  have tw1: "takeWhile isSpace (w1 @ 0x2F # s2 # w2 @ t3 @ a3) = w1"
    using w1(2) by (simp add: takeWhile_append2 slash_not_space)
  have dw1: "dropWhile isSpace (w1 @ 0x2F # s2 # w2 @ t3 @ a3) = 0x2F # s2 # w2 @ t3 @ a3"
    using w1(2) by (simp add: dropWhile_append2 slash_not_space)
  have tw2: "takeWhile isSpace (w2 @ t3 @ a3) = w2"
    using w2(2) q qs by (simp add: takeWhile_append2)
  have dw2: "dropWhile isSpace (w2 @ t3 @ a3) = q # t @ a3"
    using w2(2) q qs by (simp add: dropWhile_append2)
  have tk: "takeWhile isWord (q # t @ a3) = t3"
    using takeWhile_word_stop [OF t3(2) a3] q by simp
  show ?thesis
    using c s2 w1(1) w2(1) t3(1) word_not_quote [OF qw]
    by (simp add: cmd_c_match_at_def tw1 dw1 tw2 dw2 tk del: takeWhile.simps dropWhile.simps)
qed

text \<open>
  When the command's tokens are \<^verbatim>\<open>cmd\<close>, \<^verbatim>\<open>/c\<close> and then a token made of word
  characters, the search finds the pattern at the first token and captures the third.
\<close>

lemma wrapped_word_found:
  assumes t1: "toLowerCase (first_token cmd) = js ''cmd''"
    and t2: "toLowerCase (first_token (after_token cmd)) = js ''/c''"
    and t3: "first_token (after_token (after_token cmd)) \<noteq> []"
            "\<forall>x \<in> set (first_token (after_token (after_token cmd))). isWord x"
  shows "cmd_c_match cmd = Some (first_token (after_token (after_token cmd)))"
proof -
  let ?a1 = "after_token cmd"
  let ?a2 = "after_token ?a1"
  let ?a3 = "after_token ?a2"
  let ?T3 = "first_token ?a2"
  obtain c1 c2 c3 where T1: "first_token cmd = [c1, c2, c3]"
    and l: "toLowerChar c1 = of_char (CHR ''c'')" "toLowerChar c2 = of_char (CHR ''m'')"
      "toLowerChar c3 = of_char (CHR ''d'')"
    using t1 by (auto simp: toLowerCase_def js_def map_eq_Cons_conv)
  have c: "matches_ci (CHR ''c'') c1" "matches_ci (CHR ''m'') c2" "matches_ci (CHR ''d'') c3"
    using l lower_matches_ci by blast+
  obtain s1 s2 where T2: "first_token ?a1 = [s1, s2]"
    and s: "toLowerChar s1 = 0x2F" "toLowerChar s2 = of_char (CHR ''c'')"
    using t2 by (auto simp: toLowerCase_def js_def map_eq_Cons_conv)
  have s1: "s1 = 0x2F" using s(1) by (rule lower_slash)
  have s2: "matches_ci (CHR ''c'') s2" using s(2) by (rule lower_matches_ci(1))
  have w1: "takeWhile isSpace ?a1 \<noteq> []" using T2 by (intro gap_nonempty) simp
  have w2: "takeWhile isSpace ?a2 \<noteq> []" using t3(1) by (rule gap_nonempty)
  have a3: "?a3 = [] \<or> \<not> isWord (hd ?a3)"
    using after_token_head [of ?a2] space_not_word by blast
  have sp: "\<And>u. \<forall>x \<in> set (takeWhile isSpace u). isSpace x"
    by (auto dest: set_takeWhileD)
  have "cmd = takeWhile isSpace cmd @ [c1, c2, c3] @ ?a1"
    using leading_decomp [of cmd] T1 by simp
  also have "?a1 = takeWhile isSpace ?a1 @ [0x2F, s2] @ ?a2"
    using leading_decomp [of ?a1] T2 s1 by simp
  also have "?a2 = takeWhile isSpace ?a2 @ ?T3 @ ?a3"
    by (rule leading_decomp)
  finally have shape: "cmd = takeWhile isSpace cmd @
      (c1 # c2 # c3 # takeWhile isSpace ?a1 @ 0x2F # s2 # takeWhile isSpace ?a2 @ ?T3 @ ?a3)"
    by simp
  have "cmd_c_match_at
      (c1 # c2 # c3 # takeWhile isSpace ?a1 @ 0x2F # s2 # takeWhile isSpace ?a2 @ ?T3 @ ?a3)
      = Some ?T3"
    using c w1 sp s2 w2 sp t3 a3 by (intro match_at_shape) auto
  then have "cmd_c_match
      (c1 # c2 # c3 # takeWhile isSpace ?a1 @ 0x2F # s2 # takeWhile isSpace ?a2 @ ?T3 @ ?a3)
      = Some ?T3"
    by (rule match_found)
  then have "cmd_c_match (takeWhile isSpace cmd @
      (c1 # c2 # c3 # takeWhile isSpace ?a1 @ 0x2F # s2 # takeWhile isSpace ?a2 @ ?T3 @ ?a3))
      = Some ?T3"
    using match_skip_spaces [OF sp] by simp
  with shape show ?thesis by simp
qed

lemma validate_not_cmd:
  assumes "toLowerCase (first_token cmd) \<noteq> js ''cmd''"
  shows "validateCommand cmd = (toLowerCase (first_token cmd) \<notin> set BLACKLISTED)"
    and "validateCommand cmd = validate_spec cmd"
  using assms by (simp_all add: validateCommand_def validate_spec_def base_is_first_token Let_def)

lemma validate_cmd:
  assumes "toLowerCase (first_token cmd) = js ''cmd''"
  shows "validateCommand cmd =
          (case cmd_c_match cmd of
             Some w \<Rightarrow> toLowerCase w \<notin> set BLACKLISTED
           | None \<Rightarrow> True)"
  using assms
  by (simp add: validateCommand_def base_is_first_token Let_def cmd_not_blacklisted
      split: option.splits)

lemma validate_cmd_c_word:
  assumes "toLowerCase (first_token cmd) = js ''cmd''"
    and "toLowerCase (first_token (after_token cmd)) = js ''/c''"
    and "first_token (after_token (after_token cmd)) \<noteq> []"
    and "\<forall>x \<in> set (first_token (after_token (after_token cmd))). isWord x"
  shows "validateCommand cmd = validate_spec cmd"
  using assms wrapped_word_found [OF assms]
  by (simp add: validateCommand_def validate_spec_def base_is_first_token Let_def)

text \<open>Evaluation of the guard on a command written out.\<close>

lemmas guard_eval = validateCommand_def validate_spec_def trim_def toLowerCase_def
  toLowerChar_ascii toLowerChar_kelvin isSpace_def isWord_def js_def BLACKLISTED_def
  cmd_c_match_at_def matches_ci_def first_token_def after_token_def Let_def

lemma guard_examples:
  "\<not> validateCommand (js ''rm -rf /'')" "validateCommand (js ''ls -la'')"
  "\<not> validateCommand (js ''cmd /c del foo'')"
  by (simp_all add: guard_eval)

text \<open>
  C5, against the claim as stated. The command \<^verbatim>\<open>cmd /c del.exe foo\<close> starts with the
  wrapper and its flag, and the wrapped command's first token is \<^verbatim>\<open>del.exe\<close>, which is
  not in the denylist, so the rule of the claim accepts the command. The guard rejects it:
  the pattern captures \<^verbatim>\<open>del\<close>, the word characters at the start of that token.
  Likewise \<^verbatim>\<open>cmd echo cmd /c del\<close>: its first token is the wrapper, the token after
  it is not the flag, and the guard rejects it, the pattern being found further along.
  In the other direction, in \<^verbatim>\<open>cmd /c mKfs /dev/sda1\<close> with the Kelvin sign U+212A for
  the K, the wrapped first token lower-cases to \<^verbatim>\<open>mkfs\<close>, which is in the denylist, so
  the rule of the claim rejects the command. The guard accepts it: the Kelvin sign is not a
  word character and the pattern captures \<^verbatim>\<open>m\<close>.
\<close>

theorem guard_rule_counterexample:
  "toLowerCase (first_token (js ''cmd /c del.exe foo'')) = js ''cmd''
   \<and> toLowerCase (first_token (after_token (js ''cmd /c del.exe foo''))) = js ''/c''
   \<and> toLowerCase (first_token (after_token (after_token (js ''cmd /c del.exe foo''))))
       = js ''del.exe''
   \<and> js ''del.exe'' \<notin> set BLACKLISTED
   \<and> validate_spec (js ''cmd /c del.exe foo'')
   \<and> \<not> validateCommand (js ''cmd /c del.exe foo'')
   \<and> toLowerCase (first_token (js ''cmd echo cmd /c del'')) = js ''cmd''
   \<and> toLowerCase (first_token (after_token (js ''cmd echo cmd /c del''))) = js ''echo''
   \<and> validate_spec (js ''cmd echo cmd /c del'')
   \<and> \<not> validateCommand (js ''cmd echo cmd /c del'')
   \<and> toLowerCase (first_token (after_token (after_token
         (js ''cmd /c m'' @ [0x212A] @ js ''fs /dev/sda1'')))) = js ''mkfs''
   \<and> js ''mkfs'' \<in> set BLACKLISTED
   \<and> \<not> validate_spec (js ''cmd /c m'' @ [0x212A] @ js ''fs /dev/sda1'')
   \<and> validateCommand (js ''cmd /c m'' @ [0x212A] @ js ''fs /dev/sda1'')"
  by (simp add: guard_eval)

text \<open>
  C5, as amended. The guard rejects \<^verbatim>\<open>rm -rf /\<close> and \<^verbatim>\<open>cmd /c del foo\<close> and accepts
  \<^verbatim>\<open>ls -la\<close>. When the first white-space-delimited token, lower-cased, is not
  \<^verbatim>\<open>cmd\<close>, the guard rejects exactly when that token is in the denylist, as the rule of
  the specification does. When it is \<^verbatim>\<open>cmd\<close>, the guard rejects exactly when the pattern
  \<^verbatim>\<open>cmd\s+\/c\s+["']?(\w+)\<close> occurs in the command and the word captured at its leftmost
  occurrence, lower-cased, is in the denylist; the guard and the rule of the specification
  agree whenever the tokens are \<^verbatim>\<open>cmd\<close>, \<^verbatim>\<open>/c\<close> and a token of word characters only.
\<close>

theorem guard_rule:
  "\<not> validateCommand (js ''rm -rf /'') \<and> validateCommand (js ''ls -la'')
   \<and> \<not> validateCommand (js ''cmd /c del foo'')
   \<and> (toLowerCase (first_token cmd) \<noteq> js ''cmd'' \<longrightarrow>
        validateCommand cmd = (toLowerCase (first_token cmd) \<notin> set BLACKLISTED)
        \<and> validateCommand cmd = validate_spec cmd)
   \<and> (toLowerCase (first_token cmd) = js ''cmd'' \<longrightarrow>
        validateCommand cmd =
          (case cmd_c_match cmd of
             Some w \<Rightarrow> toLowerCase w \<notin> set BLACKLISTED
           | None \<Rightarrow> True))
   \<and> (toLowerCase (first_token cmd) = js ''cmd''
        \<and> toLowerCase (first_token (after_token cmd)) = js ''/c''
        \<and> first_token (after_token (after_token cmd)) \<noteq> []
        \<and> (\<forall>x \<in> set (first_token (after_token (after_token cmd))). isWord x) \<longrightarrow>
        validateCommand cmd = validate_spec cmd)"
  using guard_examples validate_not_cmd [of cmd] validate_cmd [of cmd]
    validate_cmd_c_word [of cmd]
  by blast

theorem guard_rule_witness:
  "toLowerCase (first_token (js ''RM -rf /'')) \<noteq> js ''cmd''
   \<and> toLowerCase (first_token (js ''RM -rf /'')) \<in> set BLACKLISTED
   \<and> \<not> validateCommand (js ''RM -rf /'') \<and> \<not> validate_spec (js ''RM -rf /'')
   \<and> toLowerCase (first_token (js ''cmd /c del foo'')) = js ''cmd''
   \<and> toLowerCase (first_token (after_token (js ''cmd /c del foo''))) = js ''/c''
   \<and> first_token (after_token (after_token (js ''cmd /c del foo''))) \<noteq> []
   \<and> list_all isWord (first_token (after_token (after_token (js ''cmd /c del foo''))))
   \<and> cmd_c_match (js ''cmd /c del foo'') = Some (js ''del'')
   \<and> \<not> validateCommand (js ''cmd /c del foo'') \<and> \<not> validate_spec (js ''cmd /c del foo'')"
proof -
  have a: "toLowerCase (first_token (js ''RM -rf /'')) \<noteq> js ''cmd''"
    and b: "toLowerCase (first_token (js ''RM -rf /'')) \<in> set BLACKLISTED"
    by (simp_all add: guard_eval)
  have c: "toLowerCase (first_token (js ''cmd /c del foo'')) = js ''cmd''"
    and d: "toLowerCase (first_token (after_token (js ''cmd /c del foo''))) = js ''/c''"
    and e: "first_token (after_token (after_token (js ''cmd /c del foo''))) \<noteq> []"
    and f: "\<forall>x \<in> set (first_token (after_token (after_token (js ''cmd /c del foo'')))). isWord x"
    and g: "cmd_c_match (js ''cmd /c del foo'') = Some (js ''del'')"
    by (simp_all add: guard_eval)
  from guard_rule [of "js ''RM -rf /''"] a b
  have r1: "\<not> validateCommand (js ''RM -rf /'') \<and> \<not> validate_spec (js ''RM -rf /'')" by blast
  from guard_rule [of "js ''cmd /c del foo''"] c d e f
  have r2: "\<not> validateCommand (js ''cmd /c del foo'') \<and> \<not> validate_spec (js ''cmd /c del foo'')"
    by blast
  from f have f': "list_all isWord (first_token (after_token (after_token (js ''cmd /c del foo''))))"
    by (simp add: list_all_iff)
  from a b c d e f' g r1 r2 show ?thesis by blast
qed

section \<open>Registry lookups after an operation\<close>

lemma map_of_update_same: "map_of (AList.update k v al) k = Some v"
  by (simp add: update_conv')

lemma map_of_update_other: "k' \<noteq> k \<Longrightarrow> map_of (AList.update k v al) k' = map_of al k'"
  by (simp add: update_conv')

text \<open>
  A listener either leaves the job in a status other than \<open>Running\<close>, or leaves its status
  and its exit code as they were.
\<close>

lemma listener_status:
  "status (listener ev job) \<noteq> Running
   \<or> (status (listener ev job) = status job \<and> exitCode (listener ev job) = exitCode job)"
  by (cases ev) (simp_all add: on_stdout_data_def on_stderr_data_def on_close_def on_error_def)

lemma deliver_job:
  assumes "map_of (jobs st) i = Some job"
  shows "\<exists>job'. map_of (jobs (deliver k ev st)) i = Some job'
           \<and> (status job' \<noteq> Running
               \<or> (status job' = status job \<and> exitCode job' = exitCode job))"
proof (cases "map_of (jobs st) k")
  case None
  then show ?thesis using assms by (simp add: deliver_def)
next
  case (Some jk)
  show ?thesis
  proof (cases "k = i")
    case True
    then have "jk = job" using Some assms by simp
    then show ?thesis using True Some listener_status [of ev job]
      by (cases ev; cases "proc job") (simp_all add: deliver_def map_of_update_same)
  next
    case False
    then show ?thesis using Some assms
      by (cases ev; cases "proc jk") (simp_all add: deliver_def map_of_update_other)
  qed
qed

lemma killJob_job:
  assumes "map_of (jobs st) i = Some job"
  shows "\<exists>job'. map_of (jobs (fst (killJob st k))) i = Some job'
           \<and> (status job' \<noteq> Running
               \<or> (status job' = status job \<and> exitCode job' = exitCode job))"
proof (cases "map_of (jobs st) k")
  case None
  then show ?thesis using assms by (simp add: killJob_def)
next
  case (Some jk)
  show ?thesis
  proof (cases "k = i")
    case True
    then show ?thesis using Some assms
      by (cases "proc jk") (simp_all add: killJob_def map_of_update_same)
  next
    case False
    then show ?thesis using Some assms
      by (cases "proc jk") (simp_all add: killJob_def map_of_update_other)
  qed
qed

lemma perform_job:
  assumes "map_of (jobs st) i = Some job"
  shows "\<exists>job'. map_of (jobs (perform a st)) i = Some job'
           \<and> (status job' \<noteq> Running
               \<or> (status job' = status job \<and> exitCode job' = exitCode job))"
proof (cases a)
  case (Callback k ev)
  then show ?thesis using deliver_job [OF assms] by simp
next
  case (KillCall k)
  then show ?thesis using killJob_job [OF assms] by (simp add: kill_command_def)
next
  case (PollCall k n t1 t2)
  then show ?thesis using assms by (simp add: poll_command_def)
qed

lemma fold_perform_job:
  assumes "map_of (jobs st) i = Some job"
  shows "\<exists>job'. map_of (jobs (fold perform acts st)) i = Some job'
           \<and> (status job' \<noteq> Running
               \<or> (status job' = status job \<and> exitCode job' = exitCode job))"
  using assms
proof (induction acts arbitrary: st job)
  case Nil
  then show ?case by simp
next
  case (Cons a acts)
  from perform_job [OF Cons.prems, of a] obtain j1 where
    j1: "map_of (jobs (perform a st)) i = Some j1"
    and s1: "status j1 \<noteq> Running \<or> (status j1 = status job \<and> exitCode j1 = exitCode job)"
    by blast
  from Cons.IH [OF j1] obtain j2 where
    j2: "map_of (jobs (fold perform acts (perform a st))) i = Some j2"
    and s2: "status j2 \<noteq> Running \<or> (status j2 = status j1 \<and> exitCode j2 = exitCode j1)"
    by blast
  from s1 s2 have "status j2 \<noteq> Running \<or> (status j2 = status job \<and> exitCode j2 = exitCode job)"
    by auto
  with j2 show ?case by simp
qed

lemma terminal_iff: "terminal s = (s \<noteq> Running)"
  by (cases s) (simp_all add: terminal_def)

text \<open>The last writer decides the status.\<close>

lemma kill_writes_killed:
  assumes "map_of (jobs st) i = Some job"
  shows "map_of (jobs (fst (killJob st i))) i = Some (job\<lparr> status := Killed \<rparr>)"
    and "snd (killJob st i) = Inr i"
  using assms by (cases "proc job"; simp add: killJob_def map_of_update_same)+

lemma close_writes_done:
  assumes "map_of (jobs st) i = Some job"
  shows "map_of (jobs (deliver i (Close code) st)) i
          = Some (job\<lparr> status := Done, exitCode := code, proc := None \<rparr>)"
  using assms by (simp add: deliver_def on_close_def map_of_update_same)

lemma error_writes_error:
  assumes "map_of (jobs st) i = Some job"
  shows "map_option status (map_of (jobs (deliver i (ProcError m) st)) i) = Some Error"
  using assms by (simp add: deliver_def on_error_def map_of_update_same)

lemma createJob_registers:
  "\<exists>job. map_of (jobs (fst (createJob pf h a b c cmd sh st)))
             (snd (createJob pf h a b c cmd sh st)) = Some job
         \<and> status job = Running \<and> exitCode job = None \<and> stdout job = [] \<and> outputLines job = 0"
  by (simp add: createJob_def Let_def map_of_update_same)

text \<open>The states of the run, written out.\<close>

lemma id_1_1000: "show_nat (Suc 0) = ''1''" "show_int 1000 = ''1000''"
  by code_simp+

lemma st_started_eq:
  "st_started =
     \<lparr> jobs = [(''job_1_1000'',
                \<lparr> id_job = ''job_1_1000'', command = js ''ls -la'', shell = ''cmd'',
                  status = Running, stdout = [], stderr = [], exitCode = None,
                  startTime = 1000, lastOutputTime = 1000, outputLines = 0, proc = Some 7 \<rparr>)],
       jobCounter = 1, effects = [Spawn ''/bin/bash'' [js ''-c'', js ''ls -la'']] \<rparr>"
  using guard_examples(2)
  by (simp add: st_started_def start_command_def createJob_def init_state_def linux_def id_1_1000
      Let_def)


lemma st_abc_eq:
  "st_abc =
     \<lparr> jobs = [(''job_1_1000'',
                \<lparr> id_job = ''job_1_1000'', command = js ''ls -la'', shell = ''cmd'',
                  status = Running, stdout = ''a\<newline>b\<newline>c\<newline>'', stderr = [], exitCode = None,
                  startTime = 1000, lastOutputTime = 1005, outputLines = 3, proc = Some 7 \<rparr>)],
       jobCounter = 1, effects = [Spawn ''/bin/bash'' [js ''-c'', js ''ls -la'']] \<rparr>"
  by (simp add: st_abc_def st_started_eq deliver_def on_stdout_data_def)

lemma st_done_eq:
  "st_done =
     \<lparr> jobs = [(''job_1_1000'',
                \<lparr> id_job = ''job_1_1000'', command = js ''ls -la'', shell = ''cmd'',
                  status = Done, stdout = [], stderr = [], exitCode = Some 0,
                  startTime = 1000, lastOutputTime = 1000, outputLines = 0, proc = None \<rparr>)],
       jobCounter = 1, effects = [Spawn ''/bin/bash'' [js ''-c'', js ''ls -la'']] \<rparr>"
  by (simp add: st_done_def st_started_eq deliver_def on_close_def)

section \<open>The status of a job over time\<close>

text \<open>
  C1, against the claim as stated. \<^verbatim>\<open>job_1_1000\<close> has closed with exit code 0 and is
  \<^verbatim>\<open>done\<close>. A \<^verbatim>\<open>killJob\<close> call then changes its status to \<^verbatim>\<open>killed\<close> and leaves
  the exit code set. A close callback on the killed job, with the \<^verbatim>\<open>null\<close> code of a
  process ended by a signal, changes the status once more, to \<^verbatim>\<open>done\<close>, with no exit
  code.
\<close>

theorem status_closed_counterexample:
  "map_option status (map_of (jobs st_done) ''job_1_1000'') = Some Done
   \<and> map_option (\<lambda>job. (status job, exitCode job))
        (map_of (jobs (fst (killJob st_done ''job_1_1000''))) ''job_1_1000'')
      = Some (Killed, Some 0)
   \<and> map_option (\<lambda>job. (status job, exitCode job))
        (map_of (jobs (deliver ''job_1_1000'' (Close None)
                        (fst (killJob st_done ''job_1_1000'')))) ''job_1_1000'')
      = Some (Done, None)"
  by (simp add: st_done_eq killJob_def deliver_def on_close_def)

text \<open>
  C1, as amended. The statuses \<^verbatim>\<open>done\<close>, \<^verbatim>\<open>error\<close> and \<^verbatim>\<open>killed\<close> are closed as a
  set: once a registered job has one of them, it has one of them after any sequence of
  kill calls, polls and callbacks, and is never \<^verbatim>\<open>running\<close> again. Inside the set the
  last writer decides: \<^verbatim>\<open>killJob\<close> always writes \<^verbatim>\<open>killed\<close> and leaves the exit code
  alone, the close callback always writes \<^verbatim>\<open>done\<close> and the reported code, the error
  callback always writes \<^verbatim>\<open>error\<close> and leaves the exit code alone. A job whose exit
  code is unset while it is \<^verbatim>\<open>running\<close> keeps that property over any such sequence,
  and the job \<^verbatim>\<open>createJob\<close> registers starts with it: a running job has no exit code.
\<close>

theorem status_monotone:
  assumes "map_of (jobs st) i = Some job"
  shows "(\<exists>job'. map_of (jobs (fold perform acts st)) i = Some job'
            \<and> (terminal (status job) \<longrightarrow> terminal (status job'))
            \<and> ((status job = Running \<longrightarrow> exitCode job = None) \<longrightarrow>
                 (status job' = Running \<longrightarrow> exitCode job' = None)))
       \<and> map_option (\<lambda>j. (status j, exitCode j)) (map_of (jobs (perform (KillCall i) st)) i)
           = Some (Killed, exitCode job)
       \<and> map_option (\<lambda>j. (status j, exitCode j))
            (map_of (jobs (perform (Callback i (Close code)) st)) i) = Some (Done, code)
       \<and> map_option (\<lambda>j. (status j, exitCode j))
            (map_of (jobs (perform (Callback i (ProcError m)) st)) i) = Some (Error, exitCode job)
       \<and> (\<exists>job'. map_of (jobs (fold perform acts (fst (createJob pf h a b c cmd sh st))))
                      (snd (createJob pf h a b c cmd sh st)) = Some job'
              \<and> (status job' = Running \<longrightarrow> exitCode job' = None))"
proof -
  from fold_perform_job [OF assms, of acts] obtain job' where
    j: "map_of (jobs (fold perform acts st)) i = Some job'"
    and s: "status job' \<noteq> Running \<or> (status job' = status job \<and> exitCode job' = exitCode job)"
    by blast
  have 1: "\<exists>job'. map_of (jobs (fold perform acts st)) i = Some job'
            \<and> (terminal (status job) \<longrightarrow> terminal (status job'))
            \<and> ((status job = Running \<longrightarrow> exitCode job = None) \<longrightarrow>
                 (status job' = Running \<longrightarrow> exitCode job' = None))"
    using j s by (auto simp: terminal_iff)
  have 2: "map_option (\<lambda>j. (status j, exitCode j)) (map_of (jobs (perform (KillCall i) st)) i)
           = Some (Killed, exitCode job)"
    using kill_writes_killed(1) [OF assms] by (simp add: kill_command_def)
  have 3: "map_option (\<lambda>j. (status j, exitCode j))
            (map_of (jobs (perform (Callback i (Close code)) st)) i) = Some (Done, code)"
    using close_writes_done [OF assms] by simp
  have 4: "map_option (\<lambda>j. (status j, exitCode j))
            (map_of (jobs (perform (Callback i (ProcError m)) st)) i) = Some (Error, exitCode job)"
    using assms by (simp add: deliver_def on_error_def map_of_update_same)
  from createJob_registers [of pf h a b c cmd sh st] obtain j0 where
    r: "map_of (jobs (fst (createJob pf h a b c cmd sh st)))
          (snd (createJob pf h a b c cmd sh st)) = Some j0"
    and r0: "status j0 = Running" "exitCode j0 = None"
    by blast
  from fold_perform_job [OF r, of acts] r0
  have 5: "\<exists>job'. map_of (jobs (fold perform acts (fst (createJob pf h a b c cmd sh st))))
                      (snd (createJob pf h a b c cmd sh st)) = Some job'
              \<and> (status job' = Running \<longrightarrow> exitCode job' = None)"
    by auto
  from 1 2 3 4 5 show ?thesis by blast
qed

theorem status_monotone_witness:
  "map_of (jobs st_done) ''job_1_1000'' \<noteq> None
   \<and> (\<exists>job'. map_of (jobs (fold perform
                 [KillCall ''job_1_1000'', Callback ''job_1_1000'' (Close None),
                  PollCall ''job_1_1000'' 0 2000 2000] st_done)) ''job_1_1000'' = Some job'
          \<and> terminal (status job') \<and> (status job' = Running \<longrightarrow> exitCode job' = None))
   \<and> map_option (\<lambda>j. (status j, exitCode j))
        (map_of (jobs (perform (KillCall ''job_1_1000'') st_done)) ''job_1_1000'')
       = Some (Killed, Some 0)"
proof -
  have j: "map_of (jobs st_done) ''job_1_1000''
     = Some \<lparr> id_job = ''job_1_1000'', command = js ''ls -la'', shell = ''cmd'',
                  status = Done, stdout = [], stderr = [], exitCode = Some 0,
                  startTime = 1000, lastOutputTime = 1000, outputLines = 0, proc = None \<rparr>"
    by (simp add: st_done_eq)
  show ?thesis
    using status_monotone [OF j, of "[KillCall ''job_1_1000'', Callback ''job_1_1000'' (Close None),
                  PollCall ''job_1_1000'' 0 2000 2000]"] j
    by (simp add: terminal_def)
qed


section \<open>Poll Engine: line offsets\<close>

lemma split_nl_abc: "split_nl ''a\<newline>b\<newline>c\<newline>'' = [''a'', ''b'', ''c'', []]"
  by simp

text \<open>
  C2, against the claim as stated. The standard output of \<^verbatim>\<open>job_1_1000\<close> is exactly
  \<^verbatim>\<open>a\nb\nc\n\<close>. Polled from line 0 the output is not \<^verbatim>\<open>a\nb\nc\<close>, and polled from
  line 1 it is not \<^verbatim>\<open>b\nc\<close>: the empty segment after the last line feed is joined back
  and leaves a line feed at the end.
\<close>

theorem poll_offsets_counterexample:
  "map_option stdout (map_of (jobs st_abc) ''job_1_1000'') = Some ''a\<newline>b\<newline>c\<newline>''
   \<and> map_sum id output_poll (pollJob st_abc ''job_1_1000'' 0 2000 2000) \<noteq> Inr ''a\<newline>b\<newline>c''
   \<and> map_sum id output_poll (pollJob st_abc ''job_1_1000'' 1 2000 2000) \<noteq> Inr ''b\<newline>c''"
  by (simp add: st_abc_eq pollJob_def slice_def Let_def)

text \<open>
  C2, as amended. For a job whose standard output is exactly \<^verbatim>\<open>a\nb\nc\n\<close>, a poll from
  line 0 returns \<^verbatim>\<open>a\nb\nc\n\<close>, a poll from line 1 returns \<^verbatim>\<open>b\nc\n\<close>, a poll from
  line 5, beyond the end, returns the empty string and no error, and every poll reports 4
  lines in total.
\<close>

theorem poll_offsets:
  assumes "map_of (jobs st) i = Some job" and "stdout job = ''a\<newline>b\<newline>c\<newline>''"
  shows "map_sum id output_poll (pollJob st i 0 t1 t2) = Inr ''a\<newline>b\<newline>c\<newline>''
       \<and> map_sum id output_poll (pollJob st i 1 t1 t2) = Inr ''b\<newline>c\<newline>''
       \<and> map_sum id output_poll (pollJob st i 5 t1 t2) = Inr []
       \<and> map_sum id totalLines (pollJob st i k t1 t2) = Inr 4"
  using assms by (simp add: pollJob_def slice_def split_nl_abc Let_def)

theorem poll_offsets_witness:
  "map_option stdout (map_of (jobs st_abc) ''job_1_1000'') = Some ''a\<newline>b\<newline>c\<newline>''
   \<and> map_sum id output_poll (pollJob st_abc ''job_1_1000'' 0 2000 2001) = Inr ''a\<newline>b\<newline>c\<newline>''
   \<and> map_sum id output_poll (pollJob st_abc ''job_1_1000'' 1 2000 2001) = Inr ''b\<newline>c\<newline>''
   \<and> map_sum id output_poll (pollJob st_abc ''job_1_1000'' 5 2000 2001) = Inr []
   \<and> map_sum id totalLines (pollJob st_abc ''job_1_1000'' 0 2000 2001) = Inr 4"
proof -
  obtain job where j: "map_of (jobs st_abc) ''job_1_1000'' = Some job"
    and s: "stdout job = ''a\<newline>b\<newline>c\<newline>''"
    by (simp add: st_abc_eq)
  show ?thesis using poll_offsets [OF j s, of 2000 2001 0] j s by simp
qed

section \<open>Removal\<close>

text \<open>
  C3, against the claim as stated. In the registry that holds only the running job
  \<^verbatim>\<open>job_1_1000\<close>, \<^verbatim>\<open>cleanupJob\<close> gives the same result for the unknown identifier
  \<^verbatim>\<open>job_9_9\<close> as for the running job, so not-found is not distinct from still-running;
  and that result is not the not-found error \<^verbatim>\<open>killJob\<close> and \<^verbatim>\<open>pollJob\<close> give.
\<close>

theorem remove_not_found_counterexample:
  "map_of (jobs st_started) ''job_9_9'' = None
   \<and> map_option status (map_of (jobs st_started) ''job_1_1000'') = Some Running
   \<and> snd (cleanupJob st_started ''job_9_9'') = snd (cleanupJob st_started ''job_1_1000'')
   \<and> error_of (snd (cleanupJob st_started ''job_9_9'')) = Some ''Job still running or not found''
   \<and> error_of (snd (killJob st_started ''job_9_9'')) = Some ''Job not found: job_9_9''
   \<and> error_of (pollJob st_started ''job_9_9'' 0 2000 2000) = Some ''Job not found: job_9_9''"
  by (simp add: st_started_eq cleanupJob_def killJob_def pollJob_def error_of_def)

text \<open>
  C3, as amended. Applied to an identifier with no job record, and applied to a job that is
  running, \<^verbatim>\<open>cleanupJob\<close> returns one and the same error,
  \<^verbatim>\<open>Job still running or not found\<close>, and leaves the registry as it was; this is not the
  error \<^verbatim>\<open>Job not found: <id>\<close> that poll and kill return for an unknown identifier.
  Applied to a job in any other status it removes that record, keeps every other record,
  and reports success.
\<close>

theorem remove_outcomes:
  "(map_of (jobs st) i = None \<longrightarrow>
      cleanupJob st i = (st, Inl ''Job still running or not found'')
      \<and> error_of (snd (killJob st i)) = Some (''Job not found: '' @ i)
      \<and> error_of (pollJob st i k t1 t2) = Some (''Job not found: '' @ i)
      \<and> error_of (snd (cleanupJob st i)) \<noteq> error_of (snd (killJob st i)))
   \<and> (\<forall>job. map_of (jobs st) i = Some job \<and> status job = Running \<longrightarrow>
      cleanupJob st i = (st, Inl ''Job still running or not found''))
   \<and> (\<forall>job. map_of (jobs st) i = Some job \<and> status job \<noteq> Running \<longrightarrow>
      snd (cleanupJob st i) = Inr ()
      \<and> map_of (jobs (fst (cleanupJob st i))) i = None
      \<and> (\<forall>i'. i' \<noteq> i \<longrightarrow> map_of (jobs (fst (cleanupJob st i))) i' = map_of (jobs st) i')
      \<and> jobCounter (fst (cleanupJob st i)) = jobCounter st)"
  by (auto simp: cleanupJob_def killJob_def pollJob_def error_of_def delete_conv)

theorem remove_outcomes_witness:
  "map_of (jobs st_started) ''job_9_9'' = None
   \<and> cleanupJob st_started ''job_9_9'' = (st_started, Inl ''Job still running or not found'')
   \<and> map_option status (map_of (jobs st_started) ''job_1_1000'') = Some Running
   \<and> cleanupJob st_started ''job_1_1000'' = (st_started, Inl ''Job still running or not found'')
   \<and> map_option status (map_of (jobs st_done) ''job_1_1000'') = Some Done
   \<and> snd (cleanupJob st_done ''job_1_1000'') = Inr ()
   \<and> map_of (jobs (fst (cleanupJob st_done ''job_1_1000''))) ''job_1_1000'' = None"
proof -
  have n: "map_of (jobs st_started) ''job_9_9'' = None"
    by (simp add: st_started_eq)
  obtain j1 where r: "map_of (jobs st_started) ''job_1_1000'' = Some j1" "status j1 = Running"
    by (simp add: st_started_eq)
  obtain j2 where d: "map_of (jobs st_done) ''job_1_1000'' = Some j2" "status j2 \<noteq> Running"
    by (simp add: st_done_eq)
  from remove_outcomes [of st_started "''job_9_9''" 0 0 0] n
  have 1: "cleanupJob st_started ''job_9_9'' = (st_started, Inl ''Job still running or not found'')"
    by blast
  from remove_outcomes [of st_started "''job_1_1000''" 0 0 0] r
  have 2: "cleanupJob st_started ''job_1_1000''
            = (st_started, Inl ''Job still running or not found'')"
    by blast
  from remove_outcomes [of st_done "''job_1_1000''" 0 0 0] d
  have 3: "snd (cleanupJob st_done ''job_1_1000'') = Inr ()
           \<and> map_of (jobs (fst (cleanupJob st_done ''job_1_1000''))) ''job_1_1000'' = None"
    by blast
  have 4: "map_option status (map_of (jobs st_started) ''job_1_1000'') = Some Running"
    "map_option status (map_of (jobs st_done) ''job_1_1000'') = Some Done"
    by (simp_all add: st_started_eq st_done_eq)
  from n 1 2 3 4 show ?thesis by blast
qed

section \<open>Termination Controller\<close>

text \<open>
  C4. For an identifier present in the registry, \<^verbatim>\<open>killJob\<close> returns
  \<^verbatim>\<open>{ success: true, id }\<close>, and so does a second call; after each call the job's status
  is \<^verbatim>\<open>killed\<close>. The process handle is as it was before the call, so the status is
  \<^verbatim>\<open>killed\<close> while the handle of a process that has not exited is still held; when the
  handle is already cleared the call sends no signal and sets no timer, and succeeds all the
  same.
\<close>

theorem kill_idempotent:
  assumes "map_of (jobs st) i = Some job"
  shows "snd (killJob st i) = Inr i
       \<and> map_option (\<lambda>j. (status j, proc j)) (map_of (jobs (fst (killJob st i))) i)
           = Some (Killed, proc job)
       \<and> snd (killJob (fst (killJob st i)) i) = Inr i
       \<and> map_option (\<lambda>j. (status j, proc j))
            (map_of (jobs (fst (killJob (fst (killJob st i)) i))) i) = Some (Killed, proc job)
       \<and> (proc job = None \<longrightarrow> effects (fst (killJob st i)) = effects st)"
proof -
  have k1: "map_of (jobs (fst (killJob st i))) i = Some (job\<lparr> status := Killed \<rparr>)"
    and r1: "snd (killJob st i) = Inr i"
    using kill_writes_killed [OF assms] by simp_all
  have k2: "map_of (jobs (fst (killJob (fst (killJob st i)) i))) i
             = Some (job\<lparr> status := Killed, status := Killed \<rparr>)"
    and r2: "snd (killJob (fst (killJob st i)) i) = Inr i"
    using kill_writes_killed [OF k1] by simp_all
  have e: "proc job = None \<longrightarrow> effects (fst (killJob st i)) = effects st"
    using assms by (simp add: killJob_def)
  from k1 r1 k2 r2 e show ?thesis by simp
qed

theorem kill_idempotent_witness:
  "map_option proc (map_of (jobs st_started) ''job_1_1000'') = Some (Some 7)
   \<and> snd (killJob st_started ''job_1_1000'') = Inr ''job_1_1000''
   \<and> map_option (\<lambda>j. (status j, proc j))
        (map_of (jobs (fst (killJob st_started ''job_1_1000''))) ''job_1_1000'')
       = Some (Killed, Some 7)
   \<and> snd (killJob (fst (killJob st_started ''job_1_1000'')) ''job_1_1000'') = Inr ''job_1_1000''
   \<and> map_option proc (map_of (jobs st_done) ''job_1_1000'') = Some None
   \<and> snd (killJob st_done ''job_1_1000'') = Inr ''job_1_1000''
   \<and> effects (fst (killJob st_done ''job_1_1000'')) = effects st_done"
proof -
  obtain j1 where r: "map_of (jobs st_started) ''job_1_1000'' = Some j1" "proc j1 = Some 7"
    by (simp add: st_started_eq)
  obtain j2 where d: "map_of (jobs st_done) ''job_1_1000'' = Some j2" "proc j2 = None"
    by (simp add: st_done_eq)
  from kill_idempotent [OF r(1)] kill_idempotent [OF d(1)] r d show ?thesis by simp
qed

section \<open>Poll Engine: the stalled flag\<close>

text \<open>
  C6. For a registered job, \<^verbatim>\<open>pollJob\<close> reports \<^verbatim>\<open>isStalled\<close> exactly when the clock
  reading minus \<^verbatim>\<open>lastOutputTime\<close> is more than 30000 and the status is \<^verbatim>\<open>running\<close>;
  a job in another status is never stalled. A chunk on either stream sets
  \<^verbatim>\<open>lastOutputTime\<close> to the time of the chunk, so after it the flag is decided by the
  time since that chunk, and a poll at the time of the chunk reports \<^verbatim>\<open>false\<close>.
\<close>

theorem stalled_flag:
  assumes "map_of (jobs st) i = Some job"
  shows "map_sum id isStalled (pollJob st i k t1 t2)
           = Inr (t2 - lastOutputTime job > 30000 \<and> status job = Running)
       \<and> (status job \<noteq> Running \<longrightarrow> map_sum id isStalled (pollJob st i k t1 t2) = Inr False)
       \<and> map_sum id isStalled (pollJob (deliver i (StdoutData text t) st) i k t1 t2)
           = Inr (t2 - t > 30000 \<and> status job = Running)
       \<and> map_sum id isStalled (pollJob (deliver i (StderrData text t) st) i k t1 t2)
           = Inr (t2 - t > 30000 \<and> status job = Running)
       \<and> map_sum id isStalled (pollJob (deliver i (StdoutData text t) st) i k t1 t) = Inr False
       \<and> map_sum id isStalled (pollJob (deliver i (StderrData text t) st) i k t1 t) = Inr False"
  using assms
  by (simp add: pollJob_def deliver_def on_stdout_data_def on_stderr_data_def
      map_of_update_same Let_def)

theorem stalled_flag_witness:
  "map_option (\<lambda>j. (status j, lastOutputTime j)) (map_of (jobs st_started) ''job_1_1000'')
     = Some (Running, 1000)
   \<and> map_sum id isStalled (pollJob st_started ''job_1_1000'' 0 31001 31001) = Inr True
   \<and> map_sum id isStalled (pollJob st_started ''job_1_1000'' 0 31000 31000) = Inr False
   \<and> map_sum id isStalled
        (pollJob (deliver ''job_1_1000'' (StdoutData ''x'' 31001) st_started)
           ''job_1_1000'' 0 31001 31001) = Inr False
   \<and> map_option status (map_of (jobs st_done) ''job_1_1000'') = Some Done
   \<and> map_sum id isStalled (pollJob st_done ''job_1_1000'' 0 99999 99999) = Inr False"
proof -
  obtain j1 where r: "map_of (jobs st_started) ''job_1_1000'' = Some j1"
    "status j1 = Running" "lastOutputTime j1 = 1000"
    by (simp add: st_started_eq)
  obtain j2 where d: "map_of (jobs st_done) ''job_1_1000'' = Some j2" "status j2 = Done"
    by (simp add: st_done_eq)
  from stalled_flag [OF r(1), of 0 31001 31001 "''x''" 31001]
    stalled_flag [OF r(1), of 0 31000 31000 "''x''" 31001]
    stalled_flag [OF d(1), of 0 99999 99999 "''x''" 0] r d
  show ?thesis by simp
qed

section \<open>Poll Engine: polling changes nothing\<close>

text \<open>
  C7. A \<^verbatim>\<open>poll_command\<close> call leaves the state, and with it every field of every job
  record, as it was. Two polls with the same \<^verbatim>\<open>fromLine\<close> of a job whose standard
  output is the same at both return the same output and the same number of lines, whatever
  the clock reads and whatever else has changed; and a poll repeated on the state the first
  one left, at the same clock readings, returns the same result.
\<close>

theorem poll_read_only:
  "fst (poll_command i k t1 t2 st) = st
   \<and> (\<forall>job job'. map_of (jobs st) i = Some job \<and> map_of (jobs st') i = Some job'
         \<and> stdout job' = stdout job \<longrightarrow>
        map_sum id output_poll (snd (poll_command i k t1 t2 st))
          = map_sum id output_poll (snd (poll_command i k t1' t2' st'))
        \<and> map_sum id totalLines (snd (poll_command i k t1 t2 st))
          = map_sum id totalLines (snd (poll_command i k t1' t2' st')))
   \<and> snd (poll_command i k t1 t2 (fst (poll_command i k t1 t2 st)))
        = snd (poll_command i k t1 t2 st)"
  by (auto simp: poll_command_def pollJob_def Let_def)

theorem poll_read_only_witness:
  "fst (poll_command ''job_1_1000'' 1 2000 2000 st_abc) = st_abc
   \<and> map_option stdout (map_of (jobs st_abc) ''job_1_1000'')
       = map_option stdout (map_of (jobs (deliver ''job_1_1000'' (StderrData ''oops'' 3000) st_abc))
           ''job_1_1000'')
   \<and> map_sum id output_poll (snd (poll_command ''job_1_1000'' 1 2000 2000 st_abc))
       = map_sum id output_poll (snd (poll_command ''job_1_1000'' 1 4000 4001
           (deliver ''job_1_1000'' (StderrData ''oops'' 3000) st_abc)))
   \<and> map_sum id totalLines (snd (poll_command ''job_1_1000'' 1 2000 2000 st_abc))
       = map_sum id totalLines (snd (poll_command ''job_1_1000'' 1 4000 4001
           (deliver ''job_1_1000'' (StderrData ''oops'' 3000) st_abc)))"
proof -
  obtain j1 where a: "map_of (jobs st_abc) ''job_1_1000'' = Some j1"
    by (simp add: st_abc_eq)
  obtain j2 where b: "map_of (jobs (deliver ''job_1_1000'' (StderrData ''oops'' 3000) st_abc))
      ''job_1_1000'' = Some j2" "stdout j2 = stdout j1"
    using a by (simp add: deliver_def on_stderr_data_def map_of_update_same)
  from poll_read_only [of "''job_1_1000''" 1 2000 2000 st_abc
      "deliver ''job_1_1000'' (StderrData ''oops'' 3000) st_abc" 4000 4001] a b
  show ?thesis by auto
qed

section \<open>Submission of a rejected command\<close>

text \<open>
  C8. When the guard rejects the command, \<^verbatim>\<open>start_command\<close> replies with the text
  \<^verbatim>\<open>Error: Command blacklisted\<close> and the state is the one before the call: the registry
  holds the same records, the counter from which identifiers are made has not moved, and
  no process has been spawned.
\<close>

theorem blacklisted_submit:
  assumes "\<not> validateCommand cmd"
  shows "start_command pf h a b c cmd sh st = (st, Inl ''Error: Command blacklisted'')
       \<and> jobs (fst (start_command pf h a b c cmd sh st)) = jobs st
       \<and> jobCounter (fst (start_command pf h a b c cmd sh st)) = jobCounter st
       \<and> effects (fst (start_command pf h a b c cmd sh st)) = effects st"
  using assms by (simp add: start_command_def)

theorem blacklisted_submit_witness:
  "\<not> validateCommand (js ''rm -rf /'')
   \<and> start_command linux 8 2000 2000 2000 (js ''rm -rf /'') None st_started
       = (st_started, Inl ''Error: Command blacklisted'')
   \<and> jobCounter (fst (start_command linux 8 2000 2000 2000 (js ''rm -rf /'') None st_started)) = 1"
proof -
  have g: "\<not> validateCommand (js ''rm -rf /'')" by (rule guard_examples(1))
  from blacklisted_submit [OF g, of linux 8 2000 2000 2000 None st_started] g
  show ?thesis by (simp add: st_started_eq)
qed

section \<open>The reaper\<close>

text \<open>
  The sweep deletes from the map while it walks over it. What is left is the entries of
  the map before the sweep whose job is not expired, in their order.
\<close>

lemma fold_delete_filter:
  "fold (\<lambda>(i, job) js. if P job then AList.delete i js else js) xs ys
     = filter (\<lambda>(k, v). k \<notin> fst ` {x \<in> set xs. P (snd x)}) ys"
proof (induction xs arbitrary: ys)
  case Nil
  then show ?case by simp
next
  case (Cons x xs)
  obtain i job where x: "x = (i, job)" by (cases x)
  show ?case
  proof (cases "P job")
    case True
    have "{y \<in> set (x # xs). P (snd y)} = insert x {y \<in> set xs. P (snd y)}"
      using True x by auto
    then show ?thesis using True x Cons.IH [of "AList.delete i ys"]
      by (auto simp: AList.delete_eq intro!: filter_cong)
  next
    case False
    have "{y \<in> set (x # xs). P (snd y)} = {y \<in> set xs. P (snd y)}"
      using False x by auto
    then show ?thesis using False x Cons.IH [of ys] by simp
  qed
qed

lemma registry_keys_distinct:
  "distinct (map fst (jobs init_state))"
  "distinct (map fst (jobs st)) \<Longrightarrow> distinct (map fst (jobs (fst (createJob pf h a b c cmd sh st))))"
  "distinct (map fst (jobs st)) \<Longrightarrow>
     distinct (map fst (jobs (fst (start_command pf h a b c cmd sha st))))"
  "distinct (map fst (jobs st)) \<Longrightarrow> distinct (map fst (jobs (deliver i ev st)))"
  "distinct (map fst (jobs st)) \<Longrightarrow> distinct (map fst (jobs (fst (killJob st i))))"
  "distinct (map fst (jobs st)) \<Longrightarrow> distinct (map fst (jobs (fst (cleanupJob st i))))"
proof -
  show "distinct (map fst (jobs init_state))" by (simp add: init_state_def)
  show c: "distinct (map fst (jobs (fst (createJob pf h a b c cmd sh st))))"
    if "distinct (map fst (jobs st))" for sh
    using that by (simp add: createJob_def Let_def distinct_update)
  show "distinct (map fst (jobs (fst (start_command pf h a b c cmd sha st))))"
    if "distinct (map fst (jobs st))"
    using that c by (simp add: start_command_def Let_def split_def)
  show "distinct (map fst (jobs (deliver i ev st)))" if "distinct (map fst (jobs st))"
    using that
    by (cases ev) (simp_all add: deliver_def distinct_update split: option.splits)
  show "distinct (map fst (jobs (fst (killJob st i))))" if "distinct (map fst (jobs st))"
    using that by (simp add: killJob_def Let_def distinct_update split: option.splits)
  show "distinct (map fst (jobs (fst (cleanupJob st i))))" if "distinct (map fst (jobs st))"
    using that by (simp add: cleanupJob_def distinct_delete split: option.splits)
qed

lemma distinct_keys_unique:
  "distinct (map fst xs) \<Longrightarrow> (k, v) \<in> set xs \<Longrightarrow> (k, v') \<in> set xs \<Longrightarrow> v = v'"
  by (metis map_of_is_SomeI option.inject)

lemma reaper_filter:
  assumes "distinct (map fst (jobs st))"
  shows "jobs (reaper now st) = filter (\<lambda>(i, job). \<not> expired now job) (jobs st)"
proof -
  have "jobs (reaper now st)
      = filter (\<lambda>(k, v). k \<notin> fst ` {x \<in> set (jobs st). expired now (snd x)}) (jobs st)"
    by (simp add: reaper_def fold_delete_filter)
  also have "\<dots> = filter (\<lambda>(i, job). \<not> expired now job) (jobs st)"
  proof (rule filter_cong [OF refl])
    fix x assume x: "x \<in> set (jobs st)"
    obtain k v where kv: "x = (k, v)" by (cases x)
    have "k \<in> fst ` {y \<in> set (jobs st). expired now (snd y)} \<longleftrightarrow> expired now v"
    proof
      assume "k \<in> fst ` {y \<in> set (jobs st). expired now (snd y)}"
      then obtain v' where "(k, v') \<in> set (jobs st)" "expired now v'" by auto
      with distinct_keys_unique [OF assms] x kv show "expired now v" by blast
    next
      assume "expired now v"
      with x kv show "k \<in> fst ` {y \<in> set (jobs st). expired now (snd y)}" by force
    qed
    then show "(case x of (k, v) \<Rightarrow> k \<notin> fst ` {x \<in> set (jobs st). expired now (snd x)})
             = (case x of (i, job) \<Rightarrow> \<not> expired now job)"
      using kv by simp
  qed
  finally show ?thesis .
qed

lemma map_of_filter_distinct:
  "distinct (map fst xs) \<Longrightarrow>
   map_of (filter (\<lambda>(k, v). Q v) xs) i
     = (case map_of xs i of None \<Rightarrow> None | Some v \<Rightarrow> if Q v then Some v else None)"
proof (induction xs)
  case Nil
  then show ?case by simp
next
  case (Cons x xs)
  obtain k v where x: "x = (k, v)" by (cases x)
  show ?case
  proof (cases "k = i")
    case True
    then have "i \<notin> fst ` set xs" using Cons.prems x by auto
    then have "map_of xs i = None" by (simp add: map_of_eq_None_iff)
    then show ?thesis using Cons True x by (auto split: option.splits)
  next
    case False
    then show ?thesis using Cons x by auto
  qed
qed

lemma listJobs_ids: "map id_sum (listJobs clock st) = map fst (jobs st)"
proof -
  have "map id_sum (listJobs clock st) = map (fst \<circ> snd) (enumerate 0 (jobs st))"
    by (simp add: listJobs_def split_def comp_def)
  also have "\<dots> = map fst (map snd (enumerate 0 (jobs st)))" by (simp only: map_map)
  also have "\<dots> = map fst (jobs st)" by (simp only: map_snd_enumerate)
  finally show ?thesis .
qed

text \<open>
  C9. A sweep of the reaper at clock reading \<open>now\<close> leaves in the registry exactly the
  jobs that are running or whose age \<open>now - startTime\<close> is at most 300000, in their order,
  and \<^verbatim>\<open>listJobs\<close> then lists exactly those: a job is removed if and only if its status
  is not \<^verbatim>\<open>running\<close> and its age exceeds 300000. The registry is a \<^verbatim>\<open>Map\<close>, so its
  keys are distinct; every operation of the engine keeps them so
  (\<open>registry_keys_distinct\<close>).
\<close>

theorem reaper_sweep:
  assumes "distinct (map fst (jobs st))"
  shows "jobs (reaper now st)
           = filter (\<lambda>(i, job). \<not> (status job \<noteq> Running \<and> now - startTime job > 300000)) (jobs st)
       \<and> map_of (jobs (reaper now st)) i
           = (case map_of (jobs st) i of
                None \<Rightarrow> None
              | Some job \<Rightarrow>
                  if status job \<noteq> Running \<and> now - startTime job > 300000 then None else Some job)
       \<and> map id_sum (listJobs clock (reaper now st))
           = map fst (filter (\<lambda>(i, job). \<not> (status job \<noteq> Running \<and> now - startTime job > 300000))
               (jobs st))
       \<and> jobCounter (reaper now st) = jobCounter st"
proof -
  have f: "jobs (reaper now st)
           = filter (\<lambda>(i, job). \<not> (status job \<noteq> Running \<and> now - startTime job > 300000)) (jobs st)"
    using reaper_filter [OF assms, of now] by (simp add: expired_def)
  have m: "map_of (jobs (reaper now st)) i
           = (case map_of (jobs st) i of
                None \<Rightarrow> None
              | Some job \<Rightarrow>
                  if status job \<noteq> Running \<and> now - startTime job > 300000 then None else Some job)"
    unfolding f
    using map_of_filter_distinct [OF assms,
        of "\<lambda>job. \<not> (status job \<noteq> Running \<and> now - startTime job > 300000)" i]
    by (auto split: option.splits)
  have l: "map id_sum (listJobs clock (reaper now st))
           = map fst (filter (\<lambda>(i, job). \<not> (status job \<noteq> Running \<and> now - startTime job > 300000))
               (jobs st))"
    by (simp only: listJobs_ids f)
  have c: "jobCounter (reaper now st) = jobCounter st" by (simp add: reaper_def)
  from f m l c show ?thesis by blast
qed

lemma digit_chars:
  "char_of (48::nat) = CHR ''0''" "char_of (49::nat) = CHR ''1''" "char_of (50::nat) = CHR ''2''"
  "char_of (51::nat) = CHR ''3''" "char_of (52::nat) = CHR ''4''" "char_of (53::nat) = CHR ''5''"
  "char_of (54::nat) = CHR ''6''" "char_of (55::nat) = CHR ''7''" "char_of (56::nat) = CHR ''8''"
  "char_of (57::nat) = CHR ''9''"
  by code_simp+

lemma ids_three: "show_nat (Suc (Suc 0)) = ''2''" "show_nat (Suc (Suc (Suc 0))) = ''3''"
  "show_int 2000 = ''2000''" "show_int 400000 = ''400000''"
  by (simp_all add: show_int_def show_nat.simps digit_chars)

lemma guard_more: "validateCommand (js ''sleep 900'')" "validateCommand (js ''echo hi'')"
  by (simp_all add: guard_eval)

lemma st_three_eq:
  "st_three =
     \<lparr> jobs = [(''job_1_1000'',
                \<lparr> id_job = ''job_1_1000'', command = js ''ls -la'', shell = ''cmd'',
                  status = Done, stdout = [], stderr = [], exitCode = Some 0,
                  startTime = 1000, lastOutputTime = 1000, outputLines = 0, proc = None \<rparr>),
               (''job_2_2000'',
                \<lparr> id_job = ''job_2_2000'', command = js ''sleep 900'', shell = ''cmd'',
                  status = Running, stdout = [], stderr = [], exitCode = None,
                  startTime = 2000, lastOutputTime = 2000, outputLines = 0, proc = Some 8 \<rparr>),
               (''job_3_400000'',
                \<lparr> id_job = ''job_3_400000'', command = js ''echo hi'', shell = ''cmd'',
                  status = Done, stdout = [], stderr = [], exitCode = Some 1,
                  startTime = 400000, lastOutputTime = 400000, outputLines = 0, proc = None \<rparr>)],
       jobCounter = 3,
       effects = [Spawn ''/bin/bash'' [js ''-c'', js ''ls -la''], Spawn ''/bin/bash'' [js ''-c'', js ''sleep 900''],
                  Spawn ''/bin/bash'' [js ''-c'', js ''echo hi'']] \<rparr>"
  using guard_more
  by (simp add: st_three_def st_started_eq start_command_def createJob_def linux_def ids_three
      deliver_def on_close_def Let_def)

theorem reaper_sweep_witness:
  "distinct (map fst (jobs st_three))
   \<and> map (\<lambda>(i, job). (i, status job, 500000 - startTime job)) (jobs st_three)
       = [(''job_1_1000'', Done, 499000), (''job_2_2000'', Running, 498000),
          (''job_3_400000'', Done, 100000)]
   \<and> map fst (jobs (reaper 500000 st_three)) = [''job_2_2000'', ''job_3_400000'']
   \<and> map_of (jobs (reaper 500000 st_three)) ''job_1_1000'' = None
   \<and> map id_sum (listJobs (\<lambda>k. 500000) (reaper 500000 st_three))
       = [''job_2_2000'', ''job_3_400000'']"
proof -
  have d: "distinct (map fst (jobs st_three))" by (simp add: st_three_eq)
  from reaper_sweep [OF d, of 500000 "''job_1_1000''" "\<lambda>k. 500000"] d
  show ?thesis by (simp add: st_three_eq)
qed


section \<open>The line counter\<close>

text \<open>
  A listener changes the counter \<^verbatim>\<open>outputLines\<close> and the number of line feeds in
  \<^verbatim>\<open>stdout\<close> by the same amount.
\<close>

lemma listener_lines:
  "outputLines (listener ev job) - newlines (stdout (listener ev job))
     = outputLines job - newlines (stdout job)"
  by (cases ev)
     (simp_all add: on_stdout_data_def on_stderr_data_def on_close_def on_error_def
        length_split_nl newlines_def)

lemma deliver_lines:
  assumes "map_of (jobs st) i = Some job"
  shows "\<exists>job'. map_of (jobs (deliver k ev st)) i = Some job'
           \<and> outputLines job' - newlines (stdout job') = outputLines job - newlines (stdout job)"
proof (cases "map_of (jobs st) k")
  case None
  then show ?thesis using assms by (simp add: deliver_def)
next
  case (Some jk)
  show ?thesis
  proof (cases "k = i")
    case True
    then have "jk = job" using Some assms by simp
    then show ?thesis using True Some listener_lines [of ev job]
      by (cases ev; cases "proc job") (simp_all add: deliver_def map_of_update_same)
  next
    case False
    then show ?thesis using Some assms
      by (cases ev; cases "proc jk") (simp_all add: deliver_def map_of_update_other)
  qed
qed

lemma killJob_lines:
  assumes "map_of (jobs st) i = Some job"
  shows "\<exists>job'. map_of (jobs (fst (killJob st k))) i = Some job'
           \<and> outputLines job' - newlines (stdout job') = outputLines job - newlines (stdout job)"
proof (cases "map_of (jobs st) k")
  case None
  then show ?thesis using assms by (simp add: killJob_def)
next
  case (Some jk)
  show ?thesis
  proof (cases "k = i")
    case True
    then show ?thesis using Some assms
      by (cases "proc jk") (simp_all add: killJob_def map_of_update_same)
  next
    case False
    then show ?thesis using Some assms
      by (cases "proc jk") (simp_all add: killJob_def map_of_update_other)
  qed
qed

lemma perform_lines:
  assumes "map_of (jobs st) i = Some job"
  shows "\<exists>job'. map_of (jobs (perform a st)) i = Some job'
           \<and> outputLines job' - newlines (stdout job') = outputLines job - newlines (stdout job)"
proof (cases a)
  case (Callback k ev)
  then show ?thesis using deliver_lines [OF assms] by simp
next
  case (KillCall k)
  then show ?thesis using killJob_lines [OF assms] by (simp add: kill_command_def)
next
  case (PollCall k n t1 t2)
  then show ?thesis using assms by (simp add: poll_command_def)
qed

lemma fold_perform_lines:
  assumes "map_of (jobs st) i = Some job"
  shows "\<exists>job'. map_of (jobs (fold perform acts st)) i = Some job'
           \<and> outputLines job' - newlines (stdout job') = outputLines job - newlines (stdout job)"
  using assms
proof (induction acts arbitrary: st job)
  case Nil
  then show ?case by simp
next
  case (Cons a acts)
  from perform_lines [OF Cons.prems, of a] obtain j1 where
    j1: "map_of (jobs (perform a st)) i = Some j1"
    and s1: "outputLines j1 - newlines (stdout j1) = outputLines job - newlines (stdout job)"
    by blast
  from Cons.IH [OF j1] s1 show ?case by simp
qed

lemma chunks_stdout:
  "stdout (fold (\<lambda>(text, t). on_stdout_data text t) chunks job)
     = stdout job @ concat (map fst chunks)"
  by (induction chunks arbitrary: job) (simp_all add: on_stdout_data_def split_def)

lemma chunks_outputLines:
  "outputLines (fold (\<lambda>(text, t). on_stdout_data text t) chunks job)
     = outputLines job + (\<Sum>(text, t)\<leftarrow>chunks. int (length (split_nl text)) - 1)"
  by (induction chunks arbitrary: job) (simp_all add: on_stdout_data_def split_def)

lemma chunks_newlines:
  "(\<Sum>(text, t)\<leftarrow>chunks. int (length (split_nl text)) - 1) = newlines (concat (map fst chunks))"
  by (induction chunks) (simp_all add: length_split_nl newlines_def split_def)

lemma listJobs_lines:
  "map (\<lambda>s. (id_sum s, outputLines_sum s)) (listJobs clock st)
     = map (\<lambda>(i, job). (i, outputLines job)) (jobs st)"
proof -
  have "map (\<lambda>s. (id_sum s, outputLines_sum s)) (listJobs clock st)
      = map ((\<lambda>(i, job). (i, outputLines job)) \<circ> snd) (enumerate 0 (jobs st))"
    by (simp add: listJobs_def split_def comp_def)
  also have "\<dots> = map (\<lambda>(i, job). (i, outputLines job)) (map snd (enumerate 0 (jobs st)))"
    by (simp only: map_map)
  also have "\<dots> = map (\<lambda>(i, job). (i, outputLines job)) (jobs st)"
    by (simp only: map_snd_enumerate)
  finally show ?thesis .
qed

text \<open>
  C10. For the job \<^verbatim>\<open>createJob\<close> registers, after any sequence of callbacks, kill calls
  and polls, the counter \<^verbatim>\<open>outputLines\<close> is the number of line feeds in the accumulated
  \<^verbatim>\<open>stdout\<close>, it is \<^verbatim>\<open>totalLines\<close> of a poll minus 1, and it is the count
  \<^verbatim>\<open>listJobs\<close> reports. For any sequence of chunks, the buffer grows by their
  concatenation, the counter grows by the sum over the chunks of the line feeds counted in
  each, and that sum is the number of line feeds in the concatenation, wherever the chunk
  boundaries fall.
\<close>

theorem line_counter:
  "(\<exists>job'. map_of (jobs (fold perform acts (fst (createJob pf h a b c cmd sh st))))
              (snd (createJob pf h a b c cmd sh st)) = Some job'
      \<and> outputLines job' = newlines (stdout job')
      \<and> map_sum id (\<lambda>r. int (totalLines r) - 1)
           (pollJob (fold perform acts (fst (createJob pf h a b c cmd sh st)))
              (snd (createJob pf h a b c cmd sh st)) k t1 t2) = Inr (outputLines job')
      \<and> (snd (createJob pf h a b c cmd sh st), outputLines job')
           \<in> set (map (\<lambda>s. (id_sum s, outputLines_sum s))
                (listJobs clock (fold perform acts (fst (createJob pf h a b c cmd sh st))))))
   \<and> stdout (fold (\<lambda>(text, t). on_stdout_data text t) chunks job)
       = stdout job @ concat (map fst chunks)
   \<and> outputLines (fold (\<lambda>(text, t). on_stdout_data text t) chunks job)
       = outputLines job + (\<Sum>(text, t)\<leftarrow>chunks. int (length (split_nl text)) - 1)
   \<and> (\<Sum>(text, t)\<leftarrow>chunks. int (length (split_nl text)) - 1)
       = newlines (concat (map fst chunks))"
proof -
  let ?st1 = "fst (createJob pf h a b c cmd sh st)"
  let ?i = "snd (createJob pf h a b c cmd sh st)"
  from createJob_registers [of pf h a b c cmd sh st] obtain j0 where
    r: "map_of (jobs ?st1) ?i = Some j0" and r0: "stdout j0 = []" "outputLines j0 = 0"
    by blast
  from fold_perform_lines [OF r, of acts] obtain job' where
    j: "map_of (jobs (fold perform acts ?st1)) ?i = Some job'"
    and l: "outputLines job' - newlines (stdout job') = outputLines j0 - newlines (stdout j0)"
    by blast
  have e: "outputLines job' = newlines (stdout job')"
    using l r0 by (simp add: newlines_def)
  have p: "map_sum id (\<lambda>r. int (totalLines r) - 1)
             (pollJob (fold perform acts ?st1) ?i k t1 t2) = Inr (outputLines job')"
    using j e by (simp add: pollJob_def Let_def length_split_nl newlines_def)
  have "(?i, job') \<in> set (jobs (fold perform acts ?st1))"
    using j by (rule map_of_SomeD)
  then have "(?i, outputLines job')
      \<in> set (map (\<lambda>(i, job). (i, outputLines job)) (jobs (fold perform acts ?st1)))"
    by force
  then have m: "(?i, outputLines job')
      \<in> set (map (\<lambda>s. (id_sum s, outputLines_sum s)) (listJobs clock (fold perform acts ?st1)))"
    by (simp only: listJobs_lines)
  from j e p m chunks_stdout [of chunks job] chunks_outputLines [of chunks job]
    chunks_newlines [of chunks]
  show ?thesis by blast
qed


lemma createJob_started:
  "createJob linux 7 1000 1000 1000 (js ''ls -la'') ''cmd'' init_state = (st_started, ''job_1_1000'')"
  by (simp add: st_started_eq createJob_def init_state_def linux_def id_1_1000 Let_def)

theorem line_counter_witness:
  "(\<exists>job'. map_of (jobs (fold perform
                 [Callback ''job_1_1000'' (StdoutData ''a\<newline>b'' 1005),
                  Callback ''job_1_1000'' (StderrData ''warn'' 1006),
                  Callback ''job_1_1000'' (StdoutData ''\<newline>c\<newline>'' 1007)] st_started))
              ''job_1_1000'' = Some job'
      \<and> stdout job' = ''a\<newline>b\<newline>c\<newline>'' \<and> outputLines job' = 3
      \<and> outputLines job' = newlines (stdout job')
      \<and> map_sum id (\<lambda>r. int (totalLines r) - 1)
           (pollJob (fold perform
                 [Callback ''job_1_1000'' (StdoutData ''a\<newline>b'' 1005),
                  Callback ''job_1_1000'' (StderrData ''warn'' 1006),
                  Callback ''job_1_1000'' (StdoutData ''\<newline>c\<newline>'' 1007)] st_started)
              ''job_1_1000'' 0 2000 2000) = Inr (outputLines job'))
   \<and> (\<Sum>(text, t)\<leftarrow>[(''a\<newline>b'', 1005 :: int), (''\<newline>c\<newline>'', 1007)]. int (length (split_nl text)) - 1)
       = newlines ''a\<newline>b\<newline>c\<newline>''"
proof -
  let ?acts = "[Callback ''job_1_1000'' (StdoutData ''a\<newline>b'' 1005),
                Callback ''job_1_1000'' (StderrData ''warn'' 1006),
                Callback ''job_1_1000'' (StdoutData ''\<newline>c\<newline>'' 1007)]"
  have v: "map_of (jobs (fold perform ?acts st_started)) ''job_1_1000''
      = Some \<lparr> id_job = ''job_1_1000'', command = js ''ls -la'', shell = ''cmd'', status = Running,
               stdout = ''a\<newline>b\<newline>c\<newline>'', stderr = ''warn'', exitCode = None, startTime = 1000,
               lastOutputTime = 1007, outputLines = 3, proc = Some 7 \<rparr>"
    by (simp add: st_started_eq deliver_def on_stdout_data_def on_stderr_data_def)
  from line_counter [of ?acts linux 7 1000 1000 1000 "js ''ls -la''" "''cmd''" init_state
      0 2000 2000 "\<lambda>k. 2000" "[(''a\<newline>b'', 1005), (''\<newline>c\<newline>'', 1007)]"
      "\<lparr> id_job = ''job_1_1000'', command = js ''ls -la'', shell = ''cmd'', status = Running,
         stdout = [], stderr = [], exitCode = None, startTime = 1000, lastOutputTime = 1000,
         outputLines = 0, proc = Some 7 \<rparr>"] v
  show ?thesis
    by (simp add: createJob_started)
qed

end

